theory Spec2Isabelle
  imports Main "HOL-Library.Sublist"
begin

unbundle bit_operations_syntax

section \<open>JavaScript values read by the plugin\<close>

text \<open>
  Strings are lists of characters with codes 0..255, each read as the code point of the
  same number. The values the plugin inspects with \<^verbatim>\<open>typeof\<close>, truthiness tests,
  comparisons and \<^verbatim>\<open>JSON.stringify\<close> are modelled by one datatype. Numbers are restricted
  to integers. An object is the list of its own enumerable properties in insertion order
  (keys are distinct in a well-formed object).
\<close>

datatype jsval =
    JUndefined
  | JNull
  | JBool bool
  | JNum int
  | JStr string
  | JArr "jsval list"
  | JObj "(string \<times> jsval) list"

text \<open>\<^verbatim>\<open>typeof v\<close>.\<close>

fun js_typeof :: "jsval \<Rightarrow> string" where
  "js_typeof JUndefined = ''undefined''"
| "js_typeof JNull = ''object''"
| "js_typeof (JBool _) = ''boolean''"
| "js_typeof (JNum _) = ''number''"
| "js_typeof (JStr _) = ''string''"
| "js_typeof (JArr _) = ''object''"
| "js_typeof (JObj _) = ''object''"

text \<open>Truthiness (\<^verbatim>\<open>!!v\<close>): undefined, null, false, 0 and the empty string are falsy.\<close>

fun truthy :: "jsval \<Rightarrow> bool" where
  "truthy JUndefined = False"
| "truthy JNull = False"
| "truthy (JBool b) = b"
| "truthy (JNum n) = (n \<noteq> 0)"
| "truthy (JStr s) = (s \<noteq> [])"
| "truthy (JArr _) = True"
| "truthy (JObj _) = True"

section \<open>Configuration validation (test-cache-improvements.js, validateConfig)\<close>

record config =
  cfg_max :: jsval
  cfg_ttl :: jsval
  cfg_size :: jsval
  cfg_provider :: jsval

text \<open>
  \<^verbatim>\<open>config.max <= 0\<close> and \<^verbatim>\<open>config.ttl < 0\<close> are only evaluated when the value is a
  number, because of the short-circuiting \<^verbatim>\<open>||\<close>; for other values the first disjunct
  already holds.
\<close>

fun num_le0 :: "jsval \<Rightarrow> bool" where
  "num_le0 (JNum n) = (n \<le> 0)"
| "num_le0 _ = False"

fun num_lt0 :: "jsval \<Rightarrow> bool" where
  "num_lt0 (JNum n) = (n < 0)"
| "num_lt0 _ = False"

fun provider_known :: "jsval \<Rightarrow> bool" where
  "provider_known (JStr s) = (s \<in> set [''memory'', ''redis''])"
| "provider_known _ = False"

definition validateConfig :: "config \<Rightarrow> string list" where
  \<open>validateConfig c =
    (let errors = [];
         errors = (if js_typeof (cfg_max c) \<noteq> ''number'' \<or> num_le0 (cfg_max c)
                   then errors @ [''max must be a positive number''] else errors);
         errors = (if js_typeof (cfg_ttl c) \<noteq> ''number'' \<or> num_lt0 (cfg_ttl c)
                   then errors @ [''ttl must be a non-negative number''] else errors);
         errors = (if js_typeof (cfg_size c) \<noteq> ''number'' \<or> num_le0 (cfg_size c)
                   then errors @ [''size must be a positive number''] else errors);
         errors = (if js_typeof (cfg_provider c) \<noteq> ''string'' \<or> \<not> provider_known (cfg_provider c)
                   then errors @ [''provider must be "memory" or "redis"''] else errors)
     in errors)\<close>

definition invalidConfig :: config where
  "invalidConfig =
     \<lparr>cfg_max = JNum (- 1), cfg_ttl = JNum (- 1000), cfg_size = JNum 0,
      cfg_provider = JStr ''invalid''\<rparr>"

text \<open>The four rules in the words of their messages.\<close>

fun positive_number :: "jsval \<Rightarrow> bool" where
  "positive_number (JNum n) = (0 < n)"
| "positive_number _ = False"

fun non_negative_number :: "jsval \<Rightarrow> bool" where
  "non_negative_number (JNum n) = (0 \<le> n)"
| "non_negative_number _ = False"

fun memory_or_redis :: "jsval \<Rightarrow> bool" where
  "memory_or_redis (JStr s) = (s = ''memory'' \<or> s = ''redis'')"
| "memory_or_redis _ = False"

section \<open>JSON.stringify\<close>

text \<open>Number to decimal string, as \<^verbatim>\<open>Number.prototype.toString\<close> does on integers.\<close>

definition digit_char :: "nat \<Rightarrow> char" where
  "digit_char d = ''0123456789'' ! (d mod 10)"

fun dec :: "nat \<Rightarrow> string" where
  "dec n = (if n < 10 then [digit_char n] else dec (n div 10) @ [digit_char (n mod 10)])"

declare dec.simps [simp del]

definition num_to_string :: "int \<Rightarrow> string" where
  "num_to_string n = (if n < 0 then CHR ''-'' # dec (nat (- n)) else dec (nat n))"

text \<open>
  \<^verbatim>\<open>QuoteJSONString\<close>: the two-character escapes, \<^verbatim>\<open>\u00XX\<close> with lower-case
  hexadecimal digits for the other control characters, every other character unchanged.
\<close>

definition hexdig :: "nat \<Rightarrow> char" where
  "hexdig d = ''0123456789abcdef'' ! (d mod 16)"

definition quote_unit :: "char \<Rightarrow> string" where
  "quote_unit c =
    (if c = CHR 0x08 then [CHR 0x5C, CHR ''b'']
     else if c = CHR 0x09 then [CHR 0x5C, CHR ''t'']
     else if c = CHR 0x0A then [CHR 0x5C, CHR ''n'']
     else if c = CHR 0x0C then [CHR 0x5C, CHR ''f'']
     else if c = CHR 0x0D then [CHR 0x5C, CHR ''r'']
     else if c = CHR 0x22 then [CHR 0x5C, CHR 0x22]
     else if c = CHR 0x5C then [CHR 0x5C, CHR 0x5C]
     else if (of_char c :: nat) < 32
       then [CHR 0x5C, CHR ''u'', CHR ''0'', CHR ''0'',
             hexdig (of_char c div 16), hexdig (of_char c mod 16)]
     else [c])"

definition quoteJSON :: "string \<Rightarrow> string" where
  "quoteJSON s = CHR 0x22 # concat (map quote_unit s) @ [CHR 0x22]"

text \<open>
  Property enumeration order (\<^verbatim>\<open>OrdinaryOwnPropertyKeys\<close>): the keys that are array
  indices, in ascending numeric order, then the other string keys in insertion order. A
  key is an array index when it is the canonical decimal string of an integer in
  \<open>0 .. 2\<^sup>3\<^sup>2 - 2\<close>.
\<close>

definition parse_nat :: "string \<Rightarrow> nat" where
  "parse_nat s = fold (\<lambda>c n. 10 * n + (of_char c - 48)) s 0"

definition is_array_index :: "string \<Rightarrow> bool" where
  "is_array_index s = (dec (parse_nat s) = s \<and> parse_nat s < 4294967295)"

definition own_properties :: "(string \<times> 'a) list \<Rightarrow> (string \<times> 'a) list" where
  "own_properties ps =
     sort_key (\<lambda>p. parse_nat (fst p)) (filter (\<lambda>p. is_array_index (fst p)) ps)
     @ filter (\<lambda>p. \<not> is_array_index (fst p)) ps"

fun join :: "string \<Rightarrow> string list \<Rightarrow> string" where
  "join sep [] = []"
| "join sep [x] = x"
| "join sep (x # y # ys) = x @ sep @ join sep (y # ys)"

text \<open>
  \<^verbatim>\<open>SerializeJSONObject\<close> on the already serialized property values: a property whose
  value serializes to undefined (\<open>None\<close>) is left out.
\<close>

definition json_member :: "string \<times> string option \<Rightarrow> string list" where
  "json_member p = (case snd p of None \<Rightarrow> [] | Some s \<Rightarrow> [quoteJSON (fst p) @ '':'' @ s])"

definition json_object :: "(string \<times> string option) list \<Rightarrow> string" where
  "json_object ps = ''{'' @ join '','' (concat (map json_member (own_properties ps))) @ ''}''"

definition json_element :: "string option \<Rightarrow> string" where
  "json_element sv = (case sv of None \<Rightarrow> ''null'' | Some s \<Rightarrow> s)"

text \<open>\<^verbatim>\<open>JSON.stringify(v)\<close>; \<open>None\<close> is the result undefined.\<close>

fun stringify :: "jsval \<Rightarrow> string option" where
  "stringify JUndefined = None"
| "stringify JNull = Some ''null''"
| "stringify (JBool b) = Some (if b then ''true'' else ''false'')"
| "stringify (JNum n) = Some (num_to_string n)"
| "stringify (JStr s) = Some (quoteJSON s)"
| "stringify (JArr xs) = Some (''['' @ join '','' (map (\<lambda>x. json_element (stringify x)) xs) @ '']'')"
| "stringify (JObj ps) = Some (json_object (map (\<lambda>(k, v). (k, stringify v)) ps))"

text \<open>\<^verbatim>\<open>JSON.stringify\<close> of an object, which is always a string.\<close>

definition stringify_object :: "(string \<times> jsval) list \<Rightarrow> string" where
  "stringify_object ps = json_object (map (\<lambda>(k, v). (k, stringify v)) ps)"

section \<open>SHA-256 and base64url (Node's \<^verbatim>\<open>createHash('sha256') ... digest('base64url')\<close>)\<close>

text \<open>
  Bytes and 32-bit words are natural numbers; every addition of words is reduced modulo
  \<open>2\<^sup>3\<^sup>2\<close>. The functions follow FIPS 180-4; its round constants (the first 32 bits
  of the fractional parts of the cube roots of the first 64 primes) and initial hash value
  (of the square roots of the first 8 primes) are written in decimal.
\<close>

definition add32 :: "nat \<Rightarrow> nat \<Rightarrow> nat" where
  "add32 x y = (x + y) mod 4294967296"

definition rotr :: "nat \<Rightarrow> nat \<Rightarrow> nat" where
  "rotr n x = x div 2 ^ n + (x mod 2 ^ n) * 2 ^ (32 - n)"

definition Ch :: "nat \<Rightarrow> nat \<Rightarrow> nat \<Rightarrow> nat" where
  "Ch x y z = (x AND y) XOR ((x XOR 4294967295) AND z)"

definition Maj :: "nat \<Rightarrow> nat \<Rightarrow> nat \<Rightarrow> nat" where
  "Maj x y z = (x AND y) XOR (x AND z) XOR (y AND z)"

definition bsig0 :: "nat \<Rightarrow> nat" where
  "bsig0 x = rotr 2 x XOR rotr 13 x XOR rotr 22 x"

definition bsig1 :: "nat \<Rightarrow> nat" where
  "bsig1 x = rotr 6 x XOR rotr 11 x XOR rotr 25 x"

definition ssig0 :: "nat \<Rightarrow> nat" where
  "ssig0 x = rotr 7 x XOR rotr 18 x XOR (x div 2 ^ 3)"

definition ssig1 :: "nat \<Rightarrow> nat" where
  "ssig1 x = rotr 17 x XOR rotr 19 x XOR (x div 2 ^ 10)"

definition K256 :: "nat list" where
  "K256 =
    [1116352408, 1899447441, 3049323471, 3921009573, 961987163, 1508970993,
     2453635748, 2870763221, 3624381080, 310598401, 607225278, 1426881987,
     1925078388, 2162078206, 2614888103, 3248222580, 3835390401, 4022224774,
     264347078, 604807628, 770255983, 1249150122, 1555081692, 1996064986,
     2554220882, 2821834349, 2952996808, 3210313671, 3336571891, 3584528711,
     113926993, 338241895, 666307205, 773529912, 1294757372, 1396182291,
     1695183700, 1986661051, 2177026350, 2456956037, 2730485921, 2820302411,
     3259730800, 3345764771, 3516065817, 3600352804, 4094571909, 275423344,
     430227734, 506948616, 659060556, 883997877, 958139571, 1322822218,
     1537002063, 1747873779, 1955562222, 2024104815, 2227730452, 2361852424,
     2428436474, 2756734187, 3204031479, 3329325298]"

definition H256 :: "nat list" where
  "H256 = [1779033703, 3144134277, 1013904242, 2773480762,
           1359893119, 2600822924, 528734635, 1541459225]"

text \<open>
  The message schedule, newest word first: \<open>ws\<close> holds \<open>W\<^sub>t\<^sub>-\<^sub>1, W\<^sub>t\<^sub>-\<^sub>2, ...\<close>, and
  \<open>W\<^sub>t = \<sigma>\<^sub>1(W\<^sub>t\<^sub>-\<^sub>2) + W\<^sub>t\<^sub>-\<^sub>7 + \<sigma>\<^sub>0(W\<^sub>t\<^sub>-\<^sub>1\<^sub>5) + W\<^sub>t\<^sub>-\<^sub>1\<^sub>6\<close>.
\<close>

fun schedule :: "nat \<Rightarrow> nat list \<Rightarrow> nat list" where
  "schedule 0 ws = ws"
| "schedule (Suc n) ws =
     schedule n (add32 (add32 (add32 (ssig1 (ws ! 1)) (ws ! 6)) (ssig0 (ws ! 14))) (ws ! 15) # ws)"

fun step :: "nat \<Rightarrow> nat \<Rightarrow> nat list \<Rightarrow> nat list" where
  "step t1 t2 [a, b, c, d, e, f, g, h] = [add32 t1 t2, a, b, c, add32 d t1, e, f, g]"
| "step _ _ st = st"

fun rounds :: "nat list \<Rightarrow> nat list \<Rightarrow> nat list \<Rightarrow> nat list" where
  "rounds (k # ks) (w # ws) [a, b, c, d, e, f, g, h] =
     rounds ks ws (step (add32 (add32 (add32 (add32 h (bsig1 e)) (Ch e f g)) k) w)
                        (add32 (bsig0 a) (Maj a b c)) [a, b, c, d, e, f, g, h])"
| "rounds _ _ st = st"

fun be32 :: "nat list \<Rightarrow> nat list" where
  "be32 (a # b # c # d # r) = (((a * 256 + b) * 256 + c) * 256 + d) # be32 r"
| "be32 _ = []"

definition compress :: "nat list \<Rightarrow> nat list \<Rightarrow> nat list" where
  "compress st blk = map2 add32 st (rounds K256 (rev (schedule 48 (rev (be32 blk)))) st)"

fun blocks :: "nat \<Rightarrow> nat list \<Rightarrow> nat list \<Rightarrow> nat list" where
  "blocks 0 st bs = st"
| "blocks (Suc n) st bs = blocks n (compress st (take 64 bs)) (drop 64 bs)"

definition be_bytes :: "nat \<Rightarrow> nat \<Rightarrow> nat list" where
  "be_bytes n x = map (\<lambda>i. (x div 256 ^ (n - 1 - i)) mod 256) [0..<n]"

definition pad :: "nat list \<Rightarrow> nat list" where
  "pad m = m @ [128] @ replicate ((119 - length m mod 64) mod 64) 0 @ be_bytes 8 (8 * length m)"

definition sha256 :: "nat list \<Rightarrow> nat list" where
  "sha256 m = concat (map (be_bytes 4) (blocks (length (pad m) div 64) H256 (pad m)))"

text \<open>Base64 with the URL-safe alphabet and no padding.\<close>

definition b64char :: "nat \<Rightarrow> char" where
  "b64char i =
     ''ABCDEFGHIJKLMNOPQRSTUVWXYZabcdefghijklmnopqrstuvwxyz0123456789-_'' ! (i mod 64)"

fun base64url :: "nat list \<Rightarrow> string" where
  "base64url (a # b # c # r) =
     b64char (a div 4) # b64char ((a mod 4) * 16 + b div 16)
       # b64char ((b mod 16) * 4 + c div 64) # b64char (c mod 64) # base64url r"
| "base64url [a, b] =
     [b64char (a div 4), b64char ((a mod 4) * 16 + b div 16), b64char ((b mod 16) * 4)]"
| "base64url [a] = [b64char (a div 4), b64char ((a mod 4) * 16)]"
| "base64url [] = []"

text \<open>
  UTF-8 encoding of a string, as \<^verbatim>\<open>hash.update(string)\<close> does: one byte below 128,
  two bytes for the code points 128..255.
\<close>

definition utf8_unit :: "char \<Rightarrow> nat list" where
  "utf8_unit c =
     (if (of_char c :: nat) < 128 then [of_char c]
      else [192 + of_char c div 64, 128 + of_char c mod 64])"

definition utf8 :: "string \<Rightarrow> nat list" where
  "utf8 s = concat (map utf8_unit s)"

definition sha256_base64url :: "string \<Rightarrow> string" where
  "sha256_base64url s = base64url (sha256 (utf8 s))"

section \<open>Cache keys (server/src/utils/key.ts)\<close>

text \<open>
  The part of \<^verbatim>\<open>context.request\<close> that \<^verbatim>\<open>generateCacheKey\<close> reads. The query is
  an object (its properties in insertion order); the headers are a dictionary from
  lower-case header names to strings.
\<close>

record request =
  url :: string
  req_method :: string
  query :: "(string \<times> jsval) list"
  headers :: "string \<rightharpoonup> string"

text \<open>\<^verbatim>\<open>headers[name]\<close>: undefined when the header is absent.\<close>

definition header :: "(string \<rightharpoonup> string) \<Rightarrow> string \<Rightarrow> jsval" where
  "header hs name = (case hs name of None \<Rightarrow> JUndefined | Some v \<Rightarrow> JStr v)"

text \<open>\<^verbatim>\<open>Object.keys(o)\<close>.\<close>

definition object_keys :: "(string \<times> 'a) list \<Rightarrow> string list" where
  "object_keys ps = map fst (own_properties ps)"

definition queryString :: "request \<Rightarrow> string" where
  "queryString r =
     (if length (object_keys (query r)) > 0 then stringify_object (query r) else [])"

definition relevantHeaders :: "request \<Rightarrow> (string \<times> jsval) list" where
  "relevantHeaders r =
     [(''accept-language'', header (headers r) ''accept-language''),
      (''accept'', header (headers r) ''accept''),
      (''user-agent'', header (headers r) ''user-agent'')]"

definition headersString :: "request \<Rightarrow> string" where
  "headersString r = stringify_object (relevantHeaders r)"

definition keyData :: "request \<Rightarrow> string" where
  "keyData r = req_method r @ '':'' @ url r @ '':'' @ queryString r @ '':'' @ headersString r"

definition generateCacheKey :: "request \<Rightarrow> string" where
  "generateCacheKey r = ''cache:'' @ sha256_base64url (keyData r)"

subsection \<open>GraphQL payloads\<close>

text \<open>
  The regular expression \<^verbatim>\<open>/"password":\s*"[^"]*"/g\<close>. \<^verbatim>\<open>\s\<close> on the code points
  0..255 is tab, line feed, vertical tab, form feed, carriage return, space and the
  no-break space.
\<close>

definition is_space :: "char \<Rightarrow> bool" where
  "is_space c = (c \<in> set [CHR 0x09, CHR 0x0A, CHR 0x0B, CHR 0x0C, CHR 0x0D, CHR 0x20, CHR 0xA0])"

definition password_prefix :: string where
  \<open>password_prefix = ''"password":''\<close>

definition replacement :: string where
  \<open>replacement = ''"password":"***"''\<close>

text \<open>
  A match of the expression at the start of \<open>s\<close>, returning the text after the match.
  The character that must follow each starred class is outside the class (a double quote
  is no white space, and \<^verbatim>\<open>[^"]\<close> excludes it), so the greedy match is the only one.
\<close>

definition match_password :: "string \<Rightarrow> string option" where
  "match_password s =
     (if take (length password_prefix) s = password_prefix then
        (case dropWhile is_space (drop (length password_prefix) s) of
           [] \<Rightarrow> None
         | q # v \<Rightarrow>
             if q = CHR 0x22 then
               (case dropWhile (\<lambda>c. c \<noteq> CHR 0x22) v of
                  [] \<Rightarrow> None
                | _ # rest \<Rightarrow> Some rest)
             else None)
      else None)"

lemma match_password_shorter:
  "match_password s = Some rest \<Longrightarrow> length rest < length s"
proof -
  assume m: "match_password s = Some rest"
  have le: "length (dropWhile P xs) \<le> length xs" for P and xs :: string
    by (induction xs) auto
  from m obtain q v where
    d: "dropWhile is_space (drop (length password_prefix) s) = q # v"
    and r: "dropWhile (\<lambda>c. c \<noteq> CHR 0x22) v = CHR 0x22 # rest \<or> (\<exists>x. dropWhile (\<lambda>c. c \<noteq> CHR 0x22) v = x # rest)"
    by (auto simp: match_password_def split: if_splits list.splits)
  from r obtain x where r': "dropWhile (\<lambda>c. c \<noteq> CHR 0x22) v = x # rest" by blast
  have "length rest < length v"
    using le [of "\<lambda>c. c \<noteq> CHR 0x22" v] r' by simp
  moreover have "length v < length (drop (length password_prefix) s)"
    using le [of is_space "drop (length password_prefix) s"] d by simp
  ultimately show ?thesis by simp
qed

text \<open>
  \<^verbatim>\<open>payload.replace(re, '"password":"***"')\<close> with the global flag: scan from the left,
  replace a match and continue after it, otherwise keep the character and move on.
\<close>

function redact :: "string \<Rightarrow> string" where
  "redact [] = []"
| "redact (c # cs) =
     (case match_password (c # cs) of
        Some rest \<Rightarrow> replacement @ redact rest
      | None \<Rightarrow> c # redact cs)"
  by pat_completeness auto
termination
  by (relation "measure length") (auto dest: match_password_shorter)

definition generateGraphqlCacheKey :: "string \<Rightarrow> string" where
  "generateGraphqlCacheKey payload = ''graphql:'' @ sha256_base64url (redact payload)"

subsection \<open>The expression as an automaton\<close>

text \<open>
  The three phases of a match, used to reason about \<open>match_password\<close>: inside the quoted
  value, in the white space before it, and in the rest \<open>p\<close> of the literal prefix.
\<close>

definition m_val :: "string \<Rightarrow> string option" where
  "m_val s = (case dropWhile (\<lambda>c. c \<noteq> CHR 0x22) s of [] \<Rightarrow> None | _ # rest \<Rightarrow> Some rest)"

definition m_ws :: "string \<Rightarrow> string option" where
  "m_ws s =
     (case dropWhile is_space s of
        [] \<Rightarrow> None
      | q # v \<Rightarrow> if q = CHR 0x22 then m_val v else None)"

fun m_lit :: "string \<Rightarrow> string \<Rightarrow> string option" where
  "m_lit [] s = m_ws s"
| "m_lit (x # p) [] = None"
| "m_lit (x # p) (c # cs) = (if c = x then m_lit p cs else None)"

subsection \<open>The members of the serialized header mapping\<close>

text \<open>The member that a tracked header contributes: none when the header is absent.\<close>

definition header_member :: "(string \<rightharpoonup> string) \<Rightarrow> string \<Rightarrow> string list" where
  "header_member hs name =
     (case hs name of None \<Rightarrow> [] | Some v \<Rightarrow> [quoteJSON name @ '':'' @ quoteJSON v])"

section \<open>Concrete requests\<close>

text \<open>The mock context of test-cache-improvements.js (\<^verbatim>\<open>testCacheKeyGeneration\<close>).\<close>

definition mockContext :: request where
  "mockContext =
     \<lparr>url = ''/api/articles'', req_method = ''GET'',
      query = [(''page'', JNum 1), (''limit'', JNum 10)],
      headers = [''accept-language'' \<mapsto> ''en-US,en;q=0.9'',
                 ''accept'' \<mapsto> ''application/json'',
                 ''user-agent'' \<mapsto> ''Mozilla/5.0 (Test Browser)'',
                 ''authorization'' \<mapsto> ''Bearer test-token'']\<rparr>"

text \<open>
  Two requests for \<^verbatim>\<open>/api/articles\<close> whose query objects hold the same two properties,
  inserted in opposite orders.
\<close>

definition req_page_limit :: request where
  "req_page_limit =
     \<lparr>url = ''/api/articles'', req_method = ''GET'',
      query = [(''page'', JStr ''1''), (''limit'', JStr ''10'')],
      headers = Map.empty\<rparr>"

definition req_limit_page :: request where
  "req_limit_page =
     \<lparr>url = ''/api/articles'', req_method = ''GET'',
      query = [(''limit'', JStr ''10''), (''page'', JStr ''1'')],
      headers = Map.empty\<rparr>"

text \<open>A request without an \<^verbatim>\<open>accept\<close> header, and the same request with an empty one.\<close>

definition req_no_accept :: request where
  "req_no_accept =
     \<lparr>url = ''/api/articles'', req_method = ''GET'', query = [], headers = Map.empty\<rparr>"

definition req_empty_accept :: request where
  "req_empty_accept =
     \<lparr>url = ''/api/articles'', req_method = ''GET'', query = [],
      headers = [''accept'' \<mapsto> '''']\<rparr>"

text \<open>
  Two requests whose query objects hold the same three properties; the array-index keys
  \<^verbatim>\<open>10\<close> and \<^verbatim>\<open>2\<close> are inserted at different places.
\<close>

definition req_index_first :: request where
  "req_index_first =
     \<lparr>url = ''/api/articles'', req_method = ''GET'',
      query = [(''10'', JStr ''x''), (''2'', JStr ''y''), (''sort'', JStr ''title'')],
      headers = Map.empty\<rparr>"

definition req_index_last :: request where
  "req_index_last =
     \<lparr>url = ''/api/articles'', req_method = ''GET'',
      query = [(''2'', JStr ''y''), (''sort'', JStr ''title''), (''10'', JStr ''x'')],
      headers = Map.empty\<rparr>"

text \<open>The mock context with another credential and a cookie.\<close>

definition mockContext_other_user :: request where
  "mockContext_other_user =
     mockContext\<lparr>headers := (headers mockContext)
       (''authorization'' \<mapsto> ''Bearer another-token'', ''cookie'' \<mapsto> ''session=42'')\<rparr>"

section \<open>Cache providers\<close>

text \<open>
  What a call into a library or into the Redis server can end with: a JavaScript exception
  (a rejected promise), and, for a read under a deadline, no answer in time.
\<close>

datatype exn = Error string | TimeoutError

datatype 'a completion = Completes 'a | Rejects exn | Pending

text \<open>
  Modelled from the spec: \<^verbatim>\<open>withTimeout\<close> of utils/withTimeout is not among the sources.
  If the read completes before the deadline the guard returns its result; if the deadline
  elapses first it resolves as a timeout outcome.
\<close>

definition withTimeout :: "'a completion \<Rightarrow> exn + 'a" where
  "withTimeout p =
     (case p of Completes x \<Rightarrow> Inr x | Rejects e \<Rightarrow> Inl e | Pending \<Rightarrow> Inl TimeoutError)"

text \<open>
  What a provider operation resolves to: null, undefined (a \<^verbatim>\<open>void\<close> return), a cached
  value, a boolean, a list of keys, or the LRU cache object itself.
\<close>

datatype ret = RNull | RUndefined | RValue jsval | RBool bool | RKeys "string list" | RCache

text \<open>
  The guard \<^verbatim>\<open>!key || typeof key !== 'string'\<close>. The key is any JavaScript value: the
  declared type \<^verbatim>\<open>string\<close> is not enforced at run time.
\<close>

definition invalid_key :: "jsval \<Rightarrow> bool" where
  "invalid_key key = (\<not> truthy key \<or> js_typeof key \<noteq> ''string'')"

text \<open>
  The plugin configuration as the providers read it: \<^verbatim>\<open>Number(config(name))\<close>, with
  \<open>None\<close> for NaN, and \<^verbatim>\<open>Boolean(config('allowStale'))\<close>.
\<close>

record plugin_config =
  conf_max :: "int option"
  conf_ttl :: "int option"
  conf_size :: "int option"
  conf_allowStale :: bool
  conf_cacheGetTimeoutInMs :: "int option"

text \<open>\<^verbatim>\<open>n || d\<close> on a number: NaN and 0 are falsy.\<close>

definition or_default :: "int option \<Rightarrow> int \<Rightarrow> int" where
  "or_default n d = (case n of None \<Rightarrow> d | Some v \<Rightarrow> if v = 0 then d else v)"

subsection \<open>InMemoryCacheProvider (server/src/services/memory/provider.ts)\<close>

record lru_options =
  opt_max :: int
  opt_ttl :: int
  opt_size :: int
  opt_allowStale :: bool
  opt_updateAgeOnGet :: bool
  opt_noDisposeOnSet :: bool

text \<open>
  The \<^verbatim>\<open>lru-cache\<close> library, over cache states of type \<open>'c\<close>. Every call may throw.
  \<open>lru_get\<close> returns undefined on a miss and the cache with its recency updated.
\<close>

record 'c lru_library =
  lru_new :: "lru_options \<Rightarrow> exn + 'c"
  lru_get :: "'c \<Rightarrow> string \<Rightarrow> exn + jsval \<times> 'c"
  lru_set :: "'c \<Rightarrow> string \<Rightarrow> jsval \<Rightarrow> exn + 'c"
  lru_delete :: "'c \<Rightarrow> string \<Rightarrow> exn + bool \<times> 'c"
  lru_keys :: "'c \<Rightarrow> exn + string list"

record 'c InMemoryCacheProvider =
  mem_initialized :: bool
  mem_provider :: "'c option"
  mem_cacheGetTimeoutInMs :: "int option"

definition InMemoryCacheProvider_new :: "'c InMemoryCacheProvider" where
  "InMemoryCacheProvider_new =
     \<lparr>mem_initialized = False, mem_provider = None, mem_cacheGetTimeoutInMs = None\<rparr>"

text \<open>\<^verbatim>\<open>init\<close> returns the exception it throws, if any, and the provider afterwards.\<close>

definition mem_init ::
  "'c lru_library \<Rightarrow> plugin_config \<Rightarrow> 'c InMemoryCacheProvider
    \<Rightarrow> exn option \<times> 'c InMemoryCacheProvider" where
  "mem_init L conf s =
     (if mem_initialized s then (None, s)
      else
        let max = or_default (conf_max conf) 1000;
            ttl = or_default (conf_ttl conf) (1000 * 60 * 60);
            size = or_default (conf_size conf) (1024 * 1024 * 10);
            allowStale = conf_allowStale conf
        in if max \<le> 0 then (Some (Error ''max must be greater than 0''), s)
           else if ttl < 0 then (Some (Error ''ttl must be non-negative''), s)
           else if size \<le> 0 then (Some (Error ''size must be greater than 0''), s)
           else
             (case lru_new L \<lparr>opt_max = max, opt_ttl = ttl, opt_size = size,
                              opt_allowStale = allowStale, opt_updateAgeOnGet = True,
                              opt_noDisposeOnSet = True\<rparr> of
                Inl e \<Rightarrow> (Some e, s)
              | Inr c \<Rightarrow>
                  let t = or_default (conf_cacheGetTimeoutInMs conf) 1000;
                      t = (if t \<le> 0 then 1000 else t)
                  in (None, s\<lparr>mem_provider := Some c, mem_cacheGetTimeoutInMs := Some t,
                               mem_initialized := True\<rparr>)))"

definition mem_ready :: "'c InMemoryCacheProvider \<Rightarrow> bool" where
  "mem_ready s = (mem_initialized s \<and> mem_provider s \<noteq> None)"

text \<open>
  In the operations below the branches for an absent cache object or a key that is not a
  string lie behind the two guards and are never taken.
\<close>

definition mem_get ::
  "'c lru_library \<Rightarrow> 'c InMemoryCacheProvider \<Rightarrow> jsval \<Rightarrow> (exn + ret) \<times> 'c InMemoryCacheProvider" where
  "mem_get L s key =
     (if \<not> mem_ready s then (Inr RNull, s)
      else if invalid_key key then (Inr RNull, s)
      else
        (case (mem_provider s, key) of
           (Some c, JStr k) \<Rightarrow>
             (case withTimeout
                     (case lru_get L c k of
                        Inr (result, c') \<Rightarrow> Completes (result, c')
                      | Inl error \<Rightarrow> Completes (JNull, c)) of
                Inr (result, c') \<Rightarrow> (Inr (RValue result), s\<lparr>mem_provider := Some c'\<rparr>)
              | Inl error \<Rightarrow> (Inr RNull, s))
         | _ \<Rightarrow> (Inr RNull, s)))"

definition mem_set ::
  "'c lru_library \<Rightarrow> 'c InMemoryCacheProvider \<Rightarrow> jsval \<Rightarrow> jsval
    \<Rightarrow> (exn + ret) \<times> 'c InMemoryCacheProvider" where
  "mem_set L s key val =
     (if \<not> mem_ready s then (Inr RNull, s)
      else if invalid_key key then (Inr RNull, s)
      else
        (case (mem_provider s, key) of
           (Some c, JStr k) \<Rightarrow>
             (case lru_set L c k val of
                Inr c' \<Rightarrow> (Inr RCache, s\<lparr>mem_provider := Some c'\<rparr>)
              | Inl error \<Rightarrow> (Inr RNull, s))
         | _ \<Rightarrow> (Inr RNull, s)))"

definition mem_del ::
  "'c lru_library \<Rightarrow> 'c InMemoryCacheProvider \<Rightarrow> jsval \<Rightarrow> (exn + ret) \<times> 'c InMemoryCacheProvider" where
  "mem_del L s key =
     (if \<not> mem_ready s then (Inr RNull, s)
      else if invalid_key key then (Inr RNull, s)
      else
        (case (mem_provider s, key) of
           (Some c, JStr k) \<Rightarrow>
             (case lru_delete L c k of
                Inr (b, c') \<Rightarrow> (Inr (RBool b), s\<lparr>mem_provider := Some c'\<rparr>)
              | Inl error \<Rightarrow> (Inr RNull, s))
         | _ \<Rightarrow> (Inr RNull, s)))"

definition mem_keys ::
  "'c lru_library \<Rightarrow> 'c InMemoryCacheProvider \<Rightarrow> (exn + ret) \<times> 'c InMemoryCacheProvider" where
  "mem_keys L s =
     (if \<not> mem_ready s then (Inr RNull, s)
      else
        (case mem_provider s of
           Some c \<Rightarrow>
             (case lru_keys L c of
                Inr ks \<Rightarrow> (Inr (RKeys ks), s)
              | Inl error \<Rightarrow> (Inr RNull, s))
         | None \<Rightarrow> (Inr RNull, s)))"

text \<open>\<^verbatim>\<open>keys.map((key) => this.del(key))\<close>: the deletions run in the order of the list.\<close>

fun mem_del_all ::
  "'c lru_library \<Rightarrow> 'c InMemoryCacheProvider \<Rightarrow> string list \<Rightarrow> 'c InMemoryCacheProvider" where
  "mem_del_all L s [] = s"
| "mem_del_all L s (k # ks) = mem_del_all L (snd (mem_del L s (JStr k))) ks"

definition mem_reset ::
  "'c lru_library \<Rightarrow> 'c InMemoryCacheProvider \<Rightarrow> (exn + ret) \<times> 'c InMemoryCacheProvider" where
  "mem_reset L s =
     (if \<not> mem_ready s then (Inr RNull, s)
      else
        (case mem_keys L s of
           (Inr (RKeys allKeys), s') \<Rightarrow> (Inr (RBool True), mem_del_all L s' allKeys)
         | (_, s') \<Rightarrow> (Inr RNull, s')))"

text \<open>A regular expression is the predicate \<^verbatim>\<open>re.test\<close>.\<close>

definition mem_clearByRegexp ::
  "'c lru_library \<Rightarrow> 'c InMemoryCacheProvider \<Rightarrow> (string \<Rightarrow> bool) list
    \<Rightarrow> (exn + ret) \<times> 'c InMemoryCacheProvider" where
  "mem_clearByRegexp L s regExps =
     (if \<not> mem_ready s then (Inr RUndefined, s)
      else
        (case mem_keys L s of
           (r, s') \<Rightarrow>
             let keys = (case r of Inr (RKeys ks) \<Rightarrow> ks | _ \<Rightarrow> []);
                 matches = filter (\<lambda>key. list_ex (\<lambda>re. re key) regExps) keys
             in (Inr RUndefined, mem_del_all L s' matches)))"

subsection \<open>RedisCacheProvider (server/src/services/redis/provider.ts)\<close>

text \<open>
  The \<^verbatim>\<open>ioredis\<close> client, over server states of type \<open>'d\<close>: connecting (to a single
  node or a cluster), and the commands GET, SET (with an optional expiry in seconds), DEL,
  KEYS and FLUSHDB. A command is answered or rejected; GET may also stay unanswered. The
  value handed to SET is the result of \<^verbatim>\<open>JSON.stringify\<close>, a string or undefined.
  \<open>json_parse\<close> is \<^verbatim>\<open>JSON.parse\<close>.
\<close>

record 'd redis_client =
  redis_connect :: "unit \<Rightarrow> exn + 'd"
  redis_get :: "'d \<Rightarrow> string \<Rightarrow> string option completion"
  redis_set :: "'d \<Rightarrow> string \<Rightarrow> string option \<Rightarrow> int option \<Rightarrow> exn + 'd"
  redis_del :: "'d \<Rightarrow> string \<Rightarrow> exn + 'd"
  redis_keys :: "'d \<Rightarrow> string \<Rightarrow> exn + string list"
  redis_flushdb :: "'d \<Rightarrow> exn + 'd"
  json_parse :: "string \<Rightarrow> exn + jsval"

record 'd RedisCacheProvider =
  redis_initialized :: bool
  redis_conn :: "'d option"
  redis_cacheGetTimeoutInMs :: "int option"

definition RedisCacheProvider_new :: "'d RedisCacheProvider" where
  "RedisCacheProvider_new =
     \<lparr>redis_initialized = False, redis_conn = None, redis_cacheGetTimeoutInMs = None\<rparr>"

definition redis_init ::
  "'d redis_client \<Rightarrow> plugin_config \<Rightarrow> 'd RedisCacheProvider
    \<Rightarrow> exn option \<times> 'd RedisCacheProvider" where
  "redis_init R conf s =
     (if redis_initialized s then (None, s)
      else
        let t = or_default (conf_cacheGetTimeoutInMs conf) 1000;
            t = (if t \<le> 0 then 1000 else t);
            s = s\<lparr>redis_cacheGetTimeoutInMs := Some t\<rparr>
        in (case redis_connect R () of
              Inl error \<Rightarrow> (Some error, s)
            | Inr d \<Rightarrow> (None, s\<lparr>redis_conn := Some d, redis_initialized := True\<rparr>)))"

definition redis_ready :: "'d RedisCacheProvider \<Rightarrow> bool" where
  "redis_ready s = (redis_initialized s \<and> redis_conn s \<noteq> None)"

definition redis_provider_get ::
  "'d redis_client \<Rightarrow> 'd RedisCacheProvider \<Rightarrow> jsval \<Rightarrow> (exn + ret) \<times> 'd RedisCacheProvider" where
  "redis_provider_get R s key =
     (if \<not> redis_ready s then (Inr RNull, s)
      else if invalid_key key then (Inr RNull, s)
      else
        (case (redis_conn s, key) of
           (Some d, JStr k) \<Rightarrow>
             (case withTimeout (redis_get R d k) of
                Inr None \<Rightarrow> (Inr RNull, s)
              | Inr (Some data) \<Rightarrow>
                  if data = [] then (Inr RNull, s)
                  else (case json_parse R data of
                          Inr v \<Rightarrow> (Inr (RValue v), s)
                        | Inl error \<Rightarrow> (Inr RNull, s))
              | Inl error \<Rightarrow> (Inr RNull, s))
         | _ \<Rightarrow> (Inr RNull, s)))"

text \<open>
  The expiry in seconds is \<^verbatim>\<open>Math.max(0, Math.floor(ttlInMs / 1000))\<close>.
  \<^verbatim>\<open>JSON.stringify\<close> does not throw on the values of type \<open>jsval\<close>, so the inner
  \<^verbatim>\<open>catch\<close> has no branch here.
\<close>

definition redis_provider_set ::
  "'d redis_client \<Rightarrow> plugin_config \<Rightarrow> 'd RedisCacheProvider \<Rightarrow> jsval \<Rightarrow> jsval
    \<Rightarrow> (exn + ret) \<times> 'd RedisCacheProvider" where
  "redis_provider_set R conf s key val =
     (if \<not> redis_ready s then (Inr RNull, s)
      else if invalid_key key then (Inr RNull, s)
      else
        (case (redis_conn s, key) of
           (Some d, JStr k) \<Rightarrow>
             let ttlInMs = or_default (conf_ttl conf) (1000 * 60 * 60);
                 ttlInS = max 0 (ttlInMs div 1000);
                 serialized = stringify val
             in (case redis_set R d k serialized (if ttlInS > 0 then Some ttlInS else None) of
                   Inr d' \<Rightarrow> (Inr (RValue val), s\<lparr>redis_conn := Some d'\<rparr>)
                 | Inl error \<Rightarrow> (Inr RNull, s))
         | _ \<Rightarrow> (Inr RNull, s)))"

definition redis_provider_del ::
  "'d redis_client \<Rightarrow> 'd RedisCacheProvider \<Rightarrow> jsval \<Rightarrow> (exn + ret) \<times> 'd RedisCacheProvider" where
  "redis_provider_del R s key =
     (if \<not> redis_ready s then (Inr RNull, s)
      else if invalid_key key then (Inr RNull, s)
      else
        (case (redis_conn s, key) of
           (Some d, JStr k) \<Rightarrow>
             (case redis_del R d k of
                Inr d' \<Rightarrow> (Inr (RBool True), s\<lparr>redis_conn := Some d'\<rparr>)
              | Inl error \<Rightarrow> (Inr RNull, s))
         | _ \<Rightarrow> (Inr RNull, s)))"

definition redis_provider_keys ::
  "'d redis_client \<Rightarrow> 'd RedisCacheProvider \<Rightarrow> (exn + ret) \<times> 'd RedisCacheProvider" where
  "redis_provider_keys R s =
     (if \<not> redis_ready s then (Inr RNull, s)
      else
        (case redis_conn s of
           Some d \<Rightarrow>
             (case redis_keys R d ''*'' of
                Inr keys \<Rightarrow> (Inr (RKeys keys), s)
              | Inl error \<Rightarrow> (Inr RNull, s))
         | None \<Rightarrow> (Inr RNull, s)))"

definition redis_provider_reset ::
  "'d redis_client \<Rightarrow> 'd RedisCacheProvider \<Rightarrow> (exn + ret) \<times> 'd RedisCacheProvider" where
  "redis_provider_reset R s =
     (if \<not> redis_ready s then (Inr RNull, s)
      else
        (case redis_conn s of
           Some d \<Rightarrow>
             (case redis_flushdb R d of
                Inr d' \<Rightarrow> (Inr (RBool True), s\<lparr>redis_conn := Some d'\<rparr>)
              | Inl error \<Rightarrow> (Inr RNull, s))
         | None \<Rightarrow> (Inr RNull, s)))"

fun redis_del_all ::
  "'d redis_client \<Rightarrow> 'd RedisCacheProvider \<Rightarrow> string list \<Rightarrow> 'd RedisCacheProvider" where
  "redis_del_all R s [] = s"
| "redis_del_all R s (k # ks) = redis_del_all R (snd (redis_provider_del R s (JStr k))) ks"

definition redis_provider_clearByRegexp ::
  "'d redis_client \<Rightarrow> 'd RedisCacheProvider \<Rightarrow> (string \<Rightarrow> bool) list
    \<Rightarrow> (exn + ret) \<times> 'd RedisCacheProvider" where
  "redis_provider_clearByRegexp R s regExps =
     (if \<not> redis_ready s then (Inr RUndefined, s)
      else
        (case redis_provider_keys R s of
           (Inr (RKeys keys), s') \<Rightarrow>
             let toDelete = filter (\<lambda>key. list_ex (\<lambda>re. re key) regExps) keys
             in (Inr RUndefined, redis_del_all R s' toDelete)
         | (_, s') \<Rightarrow> (Inr RUndefined, s')))"


subsection \<open>Reference models of the two backing stores\<close>

text \<open>
  Redis glob patterns with \<^verbatim>\<open>*\<close>, \<^verbatim>\<open>?\<close> and literal characters (the plugin only uses
  the pattern \<^verbatim>\<open>*\<close>).
\<close>

fun glob_match :: "string \<Rightarrow> string \<Rightarrow> bool" where
  "glob_match [] s = (s = [])"
| "glob_match (p # ps) [] = (p = CHR ''*'' \<and> glob_match ps [])"
| "glob_match (p # ps) (c # cs) =
     (if p = CHR ''*'' then glob_match ps (c # cs) \<or> glob_match (p # ps) cs
      else (p = CHR ''?'' \<or> p = c) \<and> glob_match ps cs)"

text \<open>
  A Redis database as an association list from keys to strings, without expiry; a
  command is always answered.
\<close>

definition db_put :: "string \<Rightarrow> string \<Rightarrow> (string \<times> string) list \<Rightarrow> (string \<times> string) list" where
  "db_put k v d = (k, v) # filter (\<lambda>p. fst p \<noteq> k) d"

definition redis_server :: "(string \<Rightarrow> exn + jsval) \<Rightarrow> (string \<times> string) list redis_client" where
  "redis_server parse =
     \<lparr>redis_connect = (\<lambda>_. Inr []),
      redis_get = (\<lambda>d k. Completes (map_of d k)),
      redis_set = (\<lambda>d k v ttl. Inr (db_put k (case v of Some str \<Rightarrow> str | None \<Rightarrow> []) d)),
      redis_del = (\<lambda>d k. Inr (filter (\<lambda>p. fst p \<noteq> k) d)),
      redis_keys = (\<lambda>d pattern. Inr (filter (glob_match pattern) (map fst d))),
      redis_flushdb = (\<lambda>d. Inr []),
      json_parse = parse\<rparr>"

text \<open>
  An LRU cache bounded by its number of entries only, most recently used first.
\<close>

definition simple_lru :: "(int \<times> (string \<times> jsval) list) lru_library" where
  "simple_lru =
     \<lparr>lru_new = (\<lambda>opts. Inr (opt_max opts, [])),
      lru_get = (\<lambda>(m, es) k.
         Inr (case map_of es k of
                None \<Rightarrow> (JUndefined, (m, es))
              | Some v \<Rightarrow> (v, (m, (k, v) # filter (\<lambda>p. fst p \<noteq> k) es)))),
      lru_set = (\<lambda>(m, es) k v. Inr (m, take (nat m) ((k, v) # filter (\<lambda>p. fst p \<noteq> k) es))),
      lru_delete = (\<lambda>(m, es) k. Inr (k \<in> set (map fst es), (m, filter (\<lambda>p. fst p \<noteq> k) es))),
      lru_keys = (\<lambda>(m, es). Inr (map fst es))\<rparr>"

definition default_config :: plugin_config where
  "default_config =
     \<lparr>conf_max = None, conf_ttl = None, conf_size = None, conf_allowStale = False,
      conf_cacheGetTimeoutInMs = None\<rparr>"

text \<open>
  A stand-in for \<^verbatim>\<open>JSON.parse\<close> in examples that never read a value back from Redis.
\<close>

definition rejecting_parser :: "string \<Rightarrow> exn + jsval" where
  "rejecting_parser s = Inl (Error ''SyntaxError'')"

text \<open>A Redis database shared with another application.\<close>

definition shared_db :: "(string \<times> string) list" where
  \<open>shared_db =
     [(''session:42'', ''{"user":7}''),
      (''cache:NrddAgUK-jIlrgnEFA-HficmUw8ilW0hWqYB1PxcKEk'', ''{"body":"[]","headers":{}}'')]\<close>

definition shared_provider :: "(string \<times> string) list RedisCacheProvider" where
  "shared_provider =
     \<lparr>redis_initialized = True, redis_conn = Some shared_db,
      redis_cacheGetTimeoutInMs = Some 1000\<rparr>"

text \<open>
  The configuration \<^verbatim>\<open>{max:-1, ttl:-1000, size:0}\<close> as \<^verbatim>\<open>init\<close> reads it.
\<close>

definition invalid_plugin_config :: plugin_config where
  "invalid_plugin_config =
     \<lparr>conf_max = Some (- 1), conf_ttl = Some (- 1000), conf_size = Some 0,
      conf_allowStale = False, conf_cacheGetTimeoutInMs = None\<rparr>"

section \<open>The GraphQL middleware (server/src/middlewares/graphql.ts)\<close>

text \<open>
  The Koa context as far as the middleware reads and writes it: the request
  (\<^verbatim>\<open>ctx.method\<close> is the request's method), the raw request body that \<^verbatim>\<open>rawBody\<close>
  has read, and the response: its status, whether the status was set explicitly
  (\<^verbatim>\<open>_explicitStatus\<close>), its body and its headers, under lower-case names. A response
  body is a materialized value, a buffer of bytes, or a stream, given by the bytes it will
  deliver. No part of the response has been sent yet.
\<close>

datatype body = Value jsval | Buffer "nat list" | Stream "nat list"

record ctx =
  ctx_request :: request
  ctx_raw_body :: string
  ctx_status :: int
  ctx_explicit_status :: bool
  ctx_body :: body
  ctx_response_headers :: "string \<rightharpoonup> string"

text \<open>A cache entry \<^verbatim>\<open>{ body, headers }\<close>.\<close>

record cache_entry =
  entry_body :: body
  entry_headers :: "(string \<times> string) list"

text \<open>
  What the middleware does to the world around it, in order: a lookup in the cache store,
  a write to it, and a call of \<^verbatim>\<open>next()\<close>.
\<close>

datatype event = CacheGet string | CacheSet string cache_entry | Next

text \<open>
  The surroundings of the middleware: the values of \<^verbatim>\<open>getCacheHeaderConfig()\<close>, the
  downstream stages behind \<^verbatim>\<open>next()\<close>, which change the context or throw, and the helpers
  of utils/header and utils/body, which are not among the sources and are taken as
  parameters. \<open>body_headers\<close> is the bookkeeping that the framework's body setter does on
  the response headers (Content-Type, Content-Length, Transfer-Encoding) when the body is
  assigned in the given context; it is a parameter as well.
\<close>

record env =
  cacheHeaders :: bool
  cacheHeadersDenyList :: "string list"
  cacheHeadersAllowList :: "string list"
  cacheAuthorizedRequests :: bool
  downstream :: "ctx \<Rightarrow> exn + ctx"
  getHeadersToStore :: "ctx \<Rightarrow> bool \<Rightarrow> string list \<Rightarrow> string list \<Rightarrow> (string \<times> string) list"
  streamToBuffer :: "nat list \<Rightarrow> exn + nat list"
  decompressBuffer :: "nat list \<Rightarrow> string option \<Rightarrow> exn + nat list"
  decodeBufferToText :: "nat list \<Rightarrow> string"
  body_headers :: "body \<Rightarrow> ctx \<Rightarrow> (string \<rightharpoonup> string)"

text \<open>
  (The constant \<^verbatim>\<open>url\<close> of the source is \<open>request_url\<close> below.)
  The state threaded through one run: the context, the cache store as a map from keys to
  entries, the events so far, and the exception with which the run ended, if any.
\<close>

record world =
  w_ctx :: ctx
  w_cache :: "string \<rightharpoonup> cache_entry"
  w_trace :: "event list"
  w_thrown :: "exn option"

text \<open>\<^verbatim>\<open>s.includes(sub)\<close> and the truthiness of a header value.\<close>

fun js_includes :: "string \<Rightarrow> string \<Rightarrow> bool" where
  "js_includes [] sub = (sub = [])"
| "js_includes (c # cs) sub = (prefix sub (c # cs) \<or> js_includes cs sub)"

definition header_truthy :: "string option \<Rightarrow> bool" where
  "header_truthy h = (case h of None \<Rightarrow> False | Some v \<Rightarrow> v \<noteq> [])"

text \<open>\<^verbatim>\<open>await next()\<close>.\<close>

definition call_next :: "env \<Rightarrow> world \<Rightarrow> world" where
  "call_next E w =
     (case downstream E (w_ctx w) of
        Inr c \<Rightarrow> w\<lparr>w_ctx := c, w_trace := w_trace w @ [Next]\<rparr>
      | Inl e \<Rightarrow> w\<lparr>w_trace := w_trace w @ [Next], w_thrown := Some e\<rparr>)"

text \<open>\<^verbatim>\<open>await cacheStore.set(key, entry)\<close>.\<close>

definition cache_set :: "string \<Rightarrow> cache_entry \<Rightarrow> world \<Rightarrow> world" where
  "cache_set key entry w =
     w\<lparr>w_cache := (w_cache w)(key \<mapsto> entry), w_trace := w_trace w @ [CacheSet key entry]\<rparr>"

text \<open>\<^verbatim>\<open>ctx.set(headers)\<close>: every header of the object is set on the response.\<close>

fun set_headers :: "(string \<times> string) list \<Rightarrow> (string \<rightharpoonup> string) \<Rightarrow> (string \<rightharpoonup> string)" where
  "set_headers [] m = m"
| "set_headers ((k, v) # hs) m = set_headers hs (m(k \<mapsto> v))"

definition ctx_set :: "(string \<times> string) list \<Rightarrow> ctx \<Rightarrow> ctx" where
  "ctx_set hs c = c\<lparr>ctx_response_headers := set_headers hs (ctx_response_headers c)\<rparr>"

text \<open>
  Assignments to \<^verbatim>\<open>ctx.status\<close> and \<^verbatim>\<open>ctx.body\<close> run the setters of Koa 2's response.
  The status setter records the code and marks the status as explicit; 200 is not one of
  the statuses without content (204, 205, 304), for which it would also clear the body.
  The body setter stores the value and does its bookkeeping on the headers. For a value
  that is null or undefined it sets the status 204 unless the status is already one
  without content; for any other value it sets the status 200 unless the status was set
  explicitly.
\<close>

definition empty_status :: "int \<Rightarrow> bool" where
  "empty_status code = (code \<in> set [204, 205, 304])"


fun nullish :: "body \<Rightarrow> bool" where
  "nullish (Value JNull) = True"
| "nullish (Value JUndefined) = True"
| "nullish _ = False"

definition assign_status_200 :: "ctx \<Rightarrow> ctx" where
  "assign_status_200 c = c\<lparr>ctx_explicit_status := True, ctx_status := 200\<rparr>"

definition assign_body :: "env \<Rightarrow> body \<Rightarrow> ctx \<Rightarrow> ctx" where
  "assign_body E val c =
     (let c' = c\<lparr>ctx_body := val, ctx_response_headers := body_headers E val c\<rparr>
      in if nullish val then
           (if empty_status (ctx_status c) then c'
            else c'\<lparr>ctx_explicit_status := True, ctx_status := 204\<rparr>)
         else if \<not> ctx_explicit_status c then c'\<lparr>ctx_explicit_status := True, ctx_status := 200\<rparr>
         else c')"

text \<open>The hit path: lines 53 to 61.\<close>

definition replay :: "env \<Rightarrow> cache_entry \<Rightarrow> ctx \<Rightarrow> ctx" where
  "replay E cacheEntry c =
     (let c = assign_status_200 c;
          c = assign_body E (entry_body cacheEntry) c
      in if cacheHeaders E then ctx_set (entry_headers cacheEntry) c else c)"

text \<open>The part after \<^verbatim>\<open>await next()\<close>: lines 65 to 98.\<close>

definition store_response :: "env \<Rightarrow> string \<Rightarrow> string \<Rightarrow> world \<Rightarrow> world" where
  "store_response E request_url key w =
     (let c = w_ctx w in
      if req_method (ctx_request c) = ''POST'' \<and> ctx_status c \<ge> 200 \<and> ctx_status c < 300
         \<and> prefix ''/graphql'' request_url
      then
        let authorizationHeader = headers (ctx_request c) ''authorization'' in
        if header_truthy authorizationHeader \<and> \<not> cacheAuthorizedRequests E then w
        else
          let headersToStore =
                getHeadersToStore E c (cacheHeaders E) (cacheHeadersAllowList E)
                  (cacheHeadersDenyList E)
          in (case ctx_body c of
                Stream bytes \<Rightarrow>
                  (case streamToBuffer E bytes of
                     Inl e \<Rightarrow> w\<lparr>w_thrown := Some e\<rparr>
                   | Inr buf \<Rightarrow>
                       (case decompressBuffer E buf (ctx_response_headers c ''content-encoding'') of
                          Inl e \<Rightarrow> w\<lparr>w_thrown := Some e\<rparr>
                        | Inr decompressed \<Rightarrow>
                            let responseText = decodeBufferToText E decompressed;
                                w = cache_set key
                                      \<lparr>entry_body = Value (JStr responseText),
                                       entry_headers = headersToStore\<rparr> w
                            in w\<lparr>w_ctx := assign_body E (Buffer buf) (w_ctx w)\<rparr>))
              | b \<Rightarrow> cache_set key \<lparr>entry_body = b, entry_headers = headersToStore\<rparr> w)
      else w)"

definition middleware :: "env \<Rightarrow> world \<Rightarrow> world" where
  "middleware E w =
     (let request_url = url (ctx_request (w_ctx w));
          body = ctx_raw_body (w_ctx w);
          isIntrospectionQuery = js_includes body ''IntrospectionQuery''
      in if isIntrospectionQuery then call_next E w
         else
           let key = generateGraphqlCacheKey body;
               cacheEntry = w_cache w key;
               w = w\<lparr>w_trace := w_trace w @ [CacheGet key]\<rparr>;
               cacheControlHeader = headers (ctx_request (w_ctx w)) ''cache-control'';
               noCache = (header_truthy cacheControlHeader
                          \<and> (case cacheControlHeader of
                                None \<Rightarrow> False
                              | Some v \<Rightarrow> js_includes v ''no-cache''));
               authorizationHeader = headers (ctx_request (w_ctx w)) ''authorization''
           in if header_truthy authorizationHeader \<and> \<not> cacheAuthorizedRequests E
              then call_next E w
              else
                (case (cacheEntry, noCache) of
                   (Some entry, False) \<Rightarrow> w\<lparr>w_ctx := replay E entry (w_ctx w)\<rparr>
                 | _ \<Rightarrow>
                     let w = call_next E w
                     in if w_thrown w \<noteq> None then w else store_response E request_url key w))"

text \<open>
  Modelled from the spec: \<^verbatim>\<open>getHeadersToStore\<close> of utils/header is not among the sources.
  If header caching is disabled no header is stored; otherwise every response header that
  is not on the deny list and, when the allow list is not empty, is on the allow list.
  The response headers are taken in the order \<open>names\<close>.
\<close>

definition headerPolicy ::
  "string list \<Rightarrow> ctx \<Rightarrow> bool \<Rightarrow> string list \<Rightarrow> string list \<Rightarrow> (string \<times> string) list" where
  "headerPolicy names c enabled allowList denyList =
     (if \<not> enabled then []
      else
        concat (map (\<lambda>n. case ctx_response_headers c n of
                            None \<Rightarrow> []
                          | Some v \<Rightarrow>
                              if n \<in> set denyList then []
                              else if allowList \<noteq> [] \<and> n \<notin> set allowList then []
                              else [(n, v)]) names))"

subsection \<open>A GraphQL endpoint for the examples\<close>

text \<open>
  The header bookkeeping of Koa 2's body setter: no content headers for a null or
  undefined body; otherwise a Content-Type by the kind of the value if none is set yet
  (always for a value that is sent as JSON), and the Content-Length of a string or a
  buffer unless a Transfer-Encoding is set.
\<close>

definition koa_type_if_unset :: "string \<Rightarrow> (string \<rightharpoonup> string) \<Rightarrow> (string \<rightharpoonup> string)" where
  "koa_type_if_unset t hs = (if hs ''content-type'' = None then hs(''content-type'' \<mapsto> t) else hs)"

definition koa_length :: "nat \<Rightarrow> (string \<rightharpoonup> string) \<Rightarrow> (string \<rightharpoonup> string)" where
  "koa_length n hs = (if hs ''transfer-encoding'' = None then hs(''content-length'' \<mapsto> dec n) else hs)"

definition koa_body_headers :: "body \<Rightarrow> ctx \<Rightarrow> (string \<rightharpoonup> string)" where
  "koa_body_headers val c =
     (let hs = ctx_response_headers c in
      if nullish val
      then hs(''content-type'' := None, ''content-length'' := None, ''transfer-encoding'' := None)
      else
        (case val of
           Value (JStr s) \<Rightarrow>
             koa_length (length (utf8 s))
               (koa_type_if_unset
                  (if take 1 (dropWhile is_space s) = ''<'' then ''text/html; charset=utf-8''
                   else ''text/plain; charset=utf-8'') hs)
         | Value v \<Rightarrow> (hs(''content-length'' := None))(''content-type'' \<mapsto> ''application/json; charset=utf-8'')
         | Buffer bytes \<Rightarrow>
             koa_length (length bytes) (koa_type_if_unset ''application/octet-stream'' hs)
         | Stream bytes \<Rightarrow>
             koa_type_if_unset ''application/octet-stream''
               (if nullish (ctx_body c) then hs else hs(''content-length'' := None))))"

text \<open>
  Downstream stages that answer with a JSON content type, a status and a text, assigned in
  this order.
\<close>

definition respond :: "int \<Rightarrow> string \<Rightarrow> ctx \<Rightarrow> exn + ctx" where
  "respond status text c =
     (let c = c\<lparr>ctx_response_headers := (ctx_response_headers c)(''content-type'' \<mapsto> ''application/json'')\<rparr>;
          c = c\<lparr>ctx_explicit_status := True, ctx_status := status\<rparr>
      in Inr (c\<lparr>ctx_body := Value (JStr text),
                ctx_response_headers := koa_body_headers (Value (JStr text)) c\<rparr>))"

definition example_env :: "(ctx \<Rightarrow> exn + ctx) \<Rightarrow> env" where
  "example_env d =
     \<lparr>cacheHeaders = True,
      cacheHeadersDenyList = [''access-control-allow-origin'', ''content-encoding''],
      cacheHeadersAllowList = [''content-type'', ''content-security-policy''],
      cacheAuthorizedRequests = False,
      downstream = d,
      getHeadersToStore = headerPolicy [''content-type'', ''content-length'', ''content-encoding''],
      streamToBuffer = Inr,
      decompressBuffer = (\<lambda>buf encoding. Inr buf),
      decodeBufferToText = map char_of,
      body_headers = koa_body_headers\<rparr>"

definition articles_query :: string where
  \<open>articles_query = ''{"query":"{ articles { title } }"}''\<close>

definition search_query :: string where
  \<open>search_query =
     ''{"query":"query Q($t: String) { search(text: $t) { id } }",''
     @ ''"variables":{"t":"IntrospectionQuery"}}''\<close>

definition graphql_request :: "string \<Rightarrow> (string \<rightharpoonup> string) \<Rightarrow> world" where
  "graphql_request payload hs =
     \<lparr>w_ctx = \<lparr>ctx_request = \<lparr>url = ''/graphql'', req_method = ''POST'', query = [],
                              headers = hs\<rparr>,
              ctx_raw_body = payload, ctx_status = 404, ctx_explicit_status = False,
              ctx_body = Value JUndefined,
              ctx_response_headers = Map.empty\<rparr>,
      w_cache = Map.empty, w_trace = [], w_thrown = None\<rparr>"

definition articles_entry :: "string \<Rightarrow> cache_entry" where
  "articles_entry text =
     \<lparr>entry_body = Value (JStr text),
      entry_headers = [(''content-type'', ''application/json'')]\<rparr>"

section \<open>Configuration validation\<close>

text \<open>\<^verbatim>\<open>validateConfig\<close> reports one error for each rule that the configuration violates.\<close>

lemma length_validateConfig:
  "length (validateConfig c) =
     (if js_typeof (cfg_max c) \<noteq> ''number'' \<or> num_le0 (cfg_max c) then 1 else 0)
   + (if js_typeof (cfg_ttl c) \<noteq> ''number'' \<or> num_lt0 (cfg_ttl c) then 1 else 0)
   + (if js_typeof (cfg_size c) \<noteq> ''number'' \<or> num_le0 (cfg_size c) then 1 else 0)
   + (if js_typeof (cfg_provider c) \<noteq> ''string'' \<or> \<not> provider_known (cfg_provider c)
      then 1 else 0)"
  by (simp add: validateConfig_def)

section \<open>Redaction of GraphQL payloads\<close>

lemma m_lit_take_drop:
  "m_lit p s = (if take (length p) s = p then m_ws (drop (length p) s) else None)"
proof (induction p s rule: m_lit.induct)
  case (1 s)
  show ?case by simp
next
  case (2 x p)
  show ?case by simp
next
  case (3 x p c cs)
  then show ?case by auto
qed

lemma match_password_m_lit: "match_password s = m_lit password_prefix s"
  unfolding m_lit_take_drop m_ws_def m_val_def match_password_def
  by (rule refl)

lemma match_password_Cons:
  "match_password (c # cs) = (if c = CHR 0x22 then m_lit (tl password_prefix) cs else None)"
  by (simp add: match_password_m_lit password_prefix_def)

lemma match_password_replacement: "match_password (replacement @ t) = Some t"
  by (simp add: match_password_def replacement_def password_prefix_def is_space_def)

lemma redact_match:
  "match_password s = Some rest \<Longrightarrow> redact s = replacement @ redact rest"
proof (cases s)
  case Nil
  assume "match_password s = Some rest"
  with Nil show ?thesis
    by (simp add: match_password_def password_prefix_def)
next
  case (Cons c cs)
  assume "match_password s = Some rest"
  with Cons show ?thesis by simp
qed

lemma redact_replacement: "redact (replacement @ t) = replacement @ redact t"
  by (rule redact_match) (rule match_password_replacement)

lemma redact_no_quote: "CHR 0x22 \<notin> set s \<Longrightarrow> redact s = s"
proof (induction s)
  case Nil
  show ?case by simp
next
  case (Cons c cs)
  then have "match_password (c # cs) = None"
    by (auto simp: match_password_Cons)
  with Cons show ?case by simp
qed

lemma m_val_None_iff: "m_val s = None \<longleftrightarrow> CHR 0x22 \<notin> set s"
proof -
  have "(case xs of [] \<Rightarrow> None | _ # r \<Rightarrow> Some r) = None \<longleftrightarrow> xs = []" for xs :: string
    by (cases xs) simp_all
  then have "m_val s = None \<longleftrightarrow> dropWhile (\<lambda>c. c \<noteq> CHR 0x22) s = []"
    unfolding m_val_def .
  also have "\<dots> \<longleftrightarrow> CHR 0x22 \<notin> set s"
    by (auto simp: dropWhile_eq_Nil_conv)
  finally show ?thesis .
qed

lemma m_val_redact: "m_val s = None \<Longrightarrow> m_val (redact s) = None"
  by (simp add: m_val_None_iff redact_no_quote)

lemma m_ws_prefix: "m_ws (password_prefix @ t) \<noteq> None"
  by (simp add: m_ws_def m_val_def password_prefix_def is_space_def)

lemma match_password_starts:
  "match_password s = Some rest \<Longrightarrow> \<exists>t. s = password_prefix @ t"
proof -
  assume "match_password s = Some rest"
  then have "take (length password_prefix) s = password_prefix"
    by (simp add: match_password_def split: if_splits)
  then have "s = password_prefix @ drop (length password_prefix) s"
    by (metis append_take_drop_id)
  then show ?thesis ..
qed

lemma m_ws_Cons:
  "m_ws (c # cs) = (if is_space c then m_ws cs else if c = CHR 0x22 then m_val cs else None)"
  by (simp add: m_ws_def)

lemma m_ws_redact: "m_ws s = None \<Longrightarrow> m_ws (redact s) = None"
proof (induction s rule: redact.induct)
  case 1
  then show ?case by simp
next
  case (2 c cs)
  show ?case
  proof (cases "match_password (c # cs)")
    case (Some rest)
    then obtain t where "c # cs = password_prefix @ t"
      using match_password_starts by blast
    then have "m_ws (c # cs) \<noteq> None"
      using m_ws_prefix [of t] by simp
    with "2.prems" show ?thesis by simp
  next
    case None
    then have r: "redact (c # cs) = c # redact cs" by simp
    show ?thesis
    proof (cases "is_space c")
      case True
      with "2.prems" have "m_ws cs = None" by (simp add: m_ws_Cons)
      then have "m_ws (redact cs) = None" using "2.IH"(1) None by simp
      with True r show ?thesis by (simp add: m_ws_Cons)
    next
      case False
      show ?thesis
      proof (cases "c = CHR 0x22")
        case True
        with False "2.prems" have "m_val cs = None" by (simp add: m_ws_Cons)
        then have "m_val (redact cs) = None" by (rule m_val_redact)
        with True False r show ?thesis by (simp add: m_ws_Cons)
      next
        case c: False
        with False r show ?thesis by (simp add: m_ws_Cons)
      qed
    qed
  qed
qed

text \<open>The proper suffixes of the literal prefix that a partial match can be waiting for.\<close>

lemma m_lit_suffix_prefix:
  \<open>p \<noteq> [] \<Longrightarrow> suffix p (tl password_prefix) \<Longrightarrow>
   m_lit p (password_prefix @ t) = None\<close>
proof -
  assume ne: "p \<noteq> []" and "suffix p (tl password_prefix)"
  then have "p \<in> set (suffixes (tl password_prefix))"
    by simp
  then show ?thesis
    using ne by (auto simp: password_prefix_def)
qed

lemma m_lit_redact:
  "suffix p (tl password_prefix) \<Longrightarrow> m_lit p s = None \<Longrightarrow> m_lit p (redact s) = None"
proof (induction s arbitrary: p rule: redact.induct)
  case 1
  then show ?case by (cases p) (simp_all add: m_ws_redact)
next
  case (2 c cs)
  show ?case
  proof (cases p)
    case Nil
    with "2.prems" show ?thesis by (simp add: m_ws_redact del: redact.simps)
  next
    case (Cons x p')
    have suf': "suffix p' (tl password_prefix)"
      using "2.prems"(1) Cons by (metis suffix_ConsD)
    show ?thesis
    proof (cases "match_password (c # cs)")
      case (Some rest)
      have "redact (c # cs) = replacement @ redact rest"
        using Some by simp
      also have "\<dots> = password_prefix @ (drop (length password_prefix) replacement @ redact rest)"
        by (simp add: replacement_def password_prefix_def)
      finally show ?thesis
        using m_lit_suffix_prefix [of p] "2.prems"(1) Cons by simp
    next
      case None
      then have r: "redact (c # cs) = c # redact cs" by simp
      show ?thesis
      proof (cases "c = x")
        case True
        with "2.prems"(2) Cons have "m_lit p' cs = None" by simp
        then have "m_lit p' (redact cs) = None"
          using "2.IH"(1) [OF None suf'] by simp
        with True r Cons show ?thesis by simp
      next
        case False
        with r Cons show ?thesis by simp
      qed
    qed
  qed
qed

lemma match_password_redact_tail:
  "match_password (c # cs) = None \<Longrightarrow> match_password (c # redact cs) = None"
  using m_lit_redact [OF suffix_order.refl, of cs]
  by (auto simp: match_password_Cons split: if_splits)

lemma redact_redact: "redact (redact s) = redact s"
proof (induction s rule: redact.induct)
  case 1
  show ?case by simp
next
  case (2 c cs)
  show ?case
  proof (cases "match_password (c # cs)")
    case (Some rest)
    with "2.IH"(2) show ?thesis by (simp add: redact_replacement)
  next
    case None
    then have "match_password (c # redact cs) = None"
      by (rule match_password_redact_tail)
    with None "2.IH"(1) show ?thesis by simp
  qed
qed

section \<open>Evaluating the key functions\<close>

lemma schedule_numeral:
  "schedule (numeral k) ws =
     schedule (pred_numeral k)
       (add32 (add32 (add32 (ssig1 (ws ! 1)) (ws ! 6)) (ssig0 (ws ! 14))) (ws ! 15) # ws)"
  by (simp add: numeral_eq_Suc)

lemma blocks_numeral:
  "blocks (numeral k) st bs = blocks (pred_numeral k) (compress st (take 64 bs)) (drop 64 bs)"
  by (simp add: numeral_eq_Suc)

lemma blocks_one: "blocks 1 st bs = compress st (take 64 bs)"
  by simp

lemma replicate_numeral: "replicate (numeral k) x = x # replicate (pred_numeral k) x"
  by (simp add: numeral_eq_Suc)

lemmas sha256_eval =
  sha256_base64url_def sha256_def pad_def be_bytes_def compress_def K256_def H256_def
  add32_def rotr_def Ch_def Maj_def bsig0_def bsig1_def ssig0_def ssig1_def
  schedule_numeral blocks_numeral blocks_one replicate_numeral upt_rec
  utf8_def utf8_unit_def b64char_def

lemmas json_eval =
  stringify_object_def json_object_def json_member_def json_element_def own_properties_def
  is_array_index_def parse_nat_def dec.simps num_to_string_def digit_char_def
  quoteJSON_def quote_unit_def hexdig_def

lemmas key_eval =
  generateCacheKey_def keyData_def queryString_def headersString_def relevantHeaders_def
  header_def object_keys_def

text \<open>The standard test vector \<^verbatim>\<open>"abc"\<close>.\<close>

lemma sha256_abc: "sha256_base64url ''abc'' = ''ungWv48Bz-pBQUDeXa4iI7ADYaOWF3qctBD_YfIAFa0''"
  by (simp add: sha256_eval)

text \<open>
  The key that the repository's change summary records for the mock context of the test
  script.
\<close>

lemma keyData_mockContext:
  \<open>keyData mockContext =
     ''GET:/api/articles:{"page":1,"limit":10}:{"accept-language":"en-US,en;q=0.9",''
     @ ''"accept":"application/json","user-agent":"Mozilla/5.0 (Test Browser)"}''\<close>
  by (simp add: mockContext_def key_eval json_eval)

lemma generateCacheKey_mockContext:
  "generateCacheKey mockContext = ''cache:P3rxvEzSw4SKXAS5sx1JnsxVAuiOYchTLQK54JJcPxs''"
  unfolding generateCacheKey_def keyData_mockContext
  by (simp add: sha256_eval)

lemma keyData_page_limit:
  \<open>keyData req_page_limit = ''GET:/api/articles:{"page":"1","limit":"10"}:{}''\<close>
  by (simp add: req_page_limit_def key_eval json_eval)

lemma keyData_limit_page:
  \<open>keyData req_limit_page = ''GET:/api/articles:{"limit":"10","page":"1"}:{}''\<close>
  by (simp add: req_limit_page_def key_eval json_eval)

lemma generateCacheKey_page_limit:
  "generateCacheKey req_page_limit = ''cache:NrddAgUK-jIlrgnEFA-HficmUw8ilW0hWqYB1PxcKEk''"
  unfolding generateCacheKey_def keyData_page_limit
  by (simp add: sha256_eval)

lemma generateCacheKey_limit_page:
  "generateCacheKey req_limit_page = ''cache:oMxetJy5qo86CKILy8Vcux8vBPVNNhoRE14YU3bP9ZQ''"
  unfolding generateCacheKey_def keyData_limit_page
  by (simp add: sha256_eval)

lemma keyData_no_accept: \<open>keyData req_no_accept = ''GET:/api/articles::{}''\<close>
  by (simp add: req_no_accept_def key_eval json_eval)

lemma keyData_empty_accept: \<open>keyData req_empty_accept = ''GET:/api/articles::{"accept":""}''\<close>
  by (simp add: req_empty_accept_def key_eval json_eval)

lemma generateCacheKey_no_accept:
  "generateCacheKey req_no_accept = ''cache:1y9uyc3IkXVrJHQEfsRutEg1ANqWPAzSe5mCKUR7HB8''"
  unfolding generateCacheKey_def keyData_no_accept
  by (simp add: sha256_eval)

lemma generateCacheKey_empty_accept:
  "generateCacheKey req_empty_accept = ''cache:dj_lo0R_NSoruPfeTrOSIswaaLr7VzTmhQRgzQ9GEUI''"
  unfolding generateCacheKey_def keyData_empty_accept
  by (simp add: sha256_eval)

section \<open>Property enumeration order\<close>

lemma parse_nat_inj_on_indices:
  "is_array_index k \<Longrightarrow> is_array_index k' \<Longrightarrow> parse_nat k = parse_nat k' \<Longrightarrow> k = k'"
  by (metis is_array_index_def)

lemma sort_key_unique:
  assumes "distinct xs" "distinct ys" "set xs = set ys" "inj_on f (set xs)"
  shows "sort_key f xs = sort_key f ys"
proof -
  have inj: "inj_on f (set (sort_key f xs) \<union> set (sort_key f ys))"
    using assms by simp
  have "distinct (map f (sort_key f xs))" "distinct (map f (sort_key f ys))"
    using assms by (simp_all add: distinct_map)
  moreover have "sorted (map f (sort_key f xs))" "sorted (map f (sort_key f ys))"
    by simp_all
  moreover have "set (map f (sort_key f xs)) = set (map f (sort_key f ys))"
    using assms by simp
  ultimately have "map f (sort_key f xs) = map f (sort_key f ys)"
    by (intro sorted_distinct_set_unique)
  then show ?thesis
    using inj by (simp add: inj_on_map_eq_map)
qed

lemma own_properties_cong:
  fixes xs ys :: "(string \<times> 'a) list"
  assumes dx: "distinct (map fst xs)" and dy: "distinct (map fst ys)"
    and s: "set xs = set ys"
    and f: "filter (\<lambda>p. \<not> is_array_index (fst p)) xs = filter (\<lambda>p. \<not> is_array_index (fst p)) ys"
  shows "own_properties xs = own_properties ys"
proof -
  let ?I = "\<lambda>p :: string \<times> 'a. is_array_index (fst p)"
  have d: "distinct xs" "distinct ys"
    using dx dy by (simp_all add: distinct_map)
  have "inj_on fst (set xs)"
    using dx by (simp add: distinct_map)
  then have "inj_on (\<lambda>p. parse_nat (fst p)) (set (filter ?I xs))"
  proof -
    assume i: "inj_on fst (set xs)"
    show ?thesis
    proof (rule inj_onI)
      fix p q
      assume p: "p \<in> set (filter ?I xs)" and q: "q \<in> set (filter ?I xs)"
        and e: "parse_nat (fst p) = parse_nat (fst q)"
      from p q e have "fst p = fst q"
        by (auto intro: parse_nat_inj_on_indices)
      with i p q show "p = q"
        by (auto dest: inj_onD)
    qed
  qed
  moreover have "set (filter ?I xs) = set (filter ?I ys)"
    using s by simp
  ultimately have "sort_key (\<lambda>p. parse_nat (fst p)) (filter ?I xs)
      = sort_key (\<lambda>p. parse_nat (fst p)) (filter ?I ys)"
    using d by (intro sort_key_unique) simp_all
  with f show ?thesis
    by (simp add: own_properties_def)
qed

lemma length_own_properties: "length (own_properties ps) = length ps"
  by (simp add: own_properties_def sum_length_filter_compl)

lemma stringify_object_cong:
  assumes "distinct (map fst q1)" "distinct (map fst q2)" "map_of q1 = map_of q2"
    and "filter (\<lambda>p. \<not> is_array_index (fst p)) q1 = filter (\<lambda>p. \<not> is_array_index (fst p)) q2"
  shows "stringify_object q1 = stringify_object q2"
proof -
  let ?g = "\<lambda>(k, v). (k, stringify v)"
  have fst_g: "fst \<circ> ?g = fst"
    by auto
  have s: "set q1 = set q2"
    using assms(1-3) by (simp add: map_of_inject_set)
  have flt: "filter (\<lambda>p. \<not> is_array_index (fst p)) (map ?g q) =
      map ?g (filter (\<lambda>p. \<not> is_array_index (fst p)) q)" for q
    by (induction q) auto
  have "own_properties (map ?g q1) = own_properties (map ?g q2)"
  proof (rule own_properties_cong)
    show "distinct (map fst (map ?g q1))" "distinct (map fst (map ?g q2))"
      using assms(1,2) by (simp_all add: fst_g)
    show "set (map ?g q1) = set (map ?g q2)"
      using s by simp
    show "filter (\<lambda>p. \<not> is_array_index (fst p)) (map ?g q1) =
        filter (\<lambda>p. \<not> is_array_index (fst p)) (map ?g q2)"
      using assms(4) by (simp only: flt)
  qed
  then show ?thesis
    by (simp add: stringify_object_def json_object_def)
qed

lemma queryString_cong:
  assumes "distinct (map fst (query r1))" "distinct (map fst (query r2))"
    and "map_of (query r1) = map_of (query r2)"
    and "filter (\<lambda>p. \<not> is_array_index (fst p)) (query r1)
       = filter (\<lambda>p. \<not> is_array_index (fst p)) (query r2)"
  shows "queryString r1 = queryString r2"
proof -
  have "set (query r1) = set (query r2)"
    using assms(1-3) by (simp add: map_of_inject_set)
  then have "query r1 = [] \<longleftrightarrow> query r2 = []"
    by (metis set_empty)
  then show ?thesis
    using stringify_object_cong [OF assms]
    by (simp add: queryString_def object_keys_def length_own_properties)
qed

lemma headersString_cong:
  assumes "headers r1 ''accept-language'' = headers r2 ''accept-language''"
    and "headers r1 ''accept'' = headers r2 ''accept''"
    and "headers r1 ''user-agent'' = headers r2 ''user-agent''"
  shows "headersString r1 = headersString r2"
  using assms by (simp add: headersString_def relevantHeaders_def header_def)

section \<open>The serialized header mapping\<close>

lemma tracked_not_index:
  "\<not> is_array_index ''accept-language''" "\<not> is_array_index ''accept''"
  "\<not> is_array_index ''user-agent''"
  by (simp_all add: is_array_index_def parse_nat_def dec.simps digit_char_def)

lemma own_properties_no_index:
  "\<forall>p \<in> set ps. \<not> is_array_index (fst p) \<Longrightarrow> own_properties ps = ps"
  by (simp add: own_properties_def filter_empty_conv)

lemma headersString_members:
  "headersString r =
     ''{'' @ join '',''
       (header_member (headers r) ''accept-language'' @ header_member (headers r) ''accept''
        @ header_member (headers r) ''user-agent'') @ ''}''"
  by (simp add: headersString_def relevantHeaders_def stringify_object_def json_object_def
      own_properties_no_index tracked_not_index json_member_def header_member_def header_def
      split: option.splits)

lemma length_join_append_less:
  "y \<noteq> [] \<Longrightarrow> length (join sep (xs @ zs)) < length (join sep (xs @ y # zs))"
proof (induction sep xs rule: join.induct)
  case (1 sep)
  then show ?case by (cases zs) simp_all
next
  case (2 sep x)
  then show ?case by (cases zs) simp_all
next
  case (3 sep x y' ys)
  then show ?case by simp
qed

lemma headersString_longer_with_empty:
  assumes "h \<in> set [''accept-language'', ''accept'', ''user-agent'']"
    and "headers r h = None"
  shows "length (headersString r) < length (headersString (r\<lparr>headers := (headers r)(h \<mapsto> [])\<rparr>))"
proof -
  let ?m = "quoteJSON h @ '':'' @ quoteJSON []"
  have ne: "?m \<noteq> []" by (simp add: quoteJSON_def)
  let ?hs = "headers r" and ?hs' = "(headers r)(h \<mapsto> [])"
  from assms(1) consider "h = ''accept-language''" | "h = ''accept''" | "h = ''user-agent''"
    by auto
  then show ?thesis
  proof cases
    case 1
    then have "header_member ?hs ''accept-language'' = []"
      "header_member ?hs' ''accept-language'' = [?m]"
      "header_member ?hs' ''accept'' = header_member ?hs ''accept''"
      "header_member ?hs' ''user-agent'' = header_member ?hs ''user-agent''"
      using assms(2) by (simp_all add: header_member_def)
    then show ?thesis
      using length_join_append_less [OF ne, of "'',''" "[]"]
      by (simp add: headersString_members)
  next
    case 2
    then have "header_member ?hs ''accept'' = []"
      "header_member ?hs' ''accept'' = [?m]"
      "header_member ?hs' ''accept-language'' = header_member ?hs ''accept-language''"
      "header_member ?hs' ''user-agent'' = header_member ?hs ''user-agent''"
      using assms(2) by (simp_all add: header_member_def)
    then show ?thesis
      using length_join_append_less [OF ne, of "'',''" "header_member ?hs ''accept-language''"]
      by (simp add: headersString_members)
  next
    case 3
    then have "header_member ?hs ''user-agent'' = []"
      "header_member ?hs' ''user-agent'' = [?m]"
      "header_member ?hs' ''accept-language'' = header_member ?hs ''accept-language''"
      "header_member ?hs' ''accept'' = header_member ?hs ''accept''"
      using assms(2) by (simp_all add: header_member_def)
    then show ?thesis
      using length_join_append_less [OF ne, of "'',''"
          "header_member ?hs ''accept-language'' @ header_member ?hs ''accept''" "[]"]
      by (simp add: headersString_members)
  qed
qed

section \<open>Provider guards\<close>

lemma invalid_key_iff:
  "invalid_key key \<longleftrightarrow> key = JNull \<or> key = JStr [] \<or> js_typeof key \<noteq> ''string''"
  by (cases key) (simp_all add: invalid_key_def)

lemma mem_not_ready:
  assumes "\<not> mem_ready s"
  shows "mem_get L s key = (Inr RNull, s)" and "mem_set L s key val = (Inr RNull, s)"
    and "mem_del L s key = (Inr RNull, s)" and "mem_keys L s = (Inr RNull, s)"
    and "mem_reset L s = (Inr RNull, s)" and "mem_clearByRegexp L s regExps = (Inr RUndefined, s)"
  using assms
  by (simp_all add: mem_get_def mem_set_def mem_del_def mem_keys_def mem_reset_def
      mem_clearByRegexp_def)

lemma mem_invalid_key:
  assumes "invalid_key key"
  shows "mem_get L s key = (Inr RNull, s)" and "mem_set L s key val = (Inr RNull, s)"
    and "mem_del L s key = (Inr RNull, s)"
  using assms by (simp_all add: mem_get_def mem_set_def mem_del_def)

lemma redis_not_ready:
  assumes "\<not> redis_ready s"
  shows "redis_provider_get R s key = (Inr RNull, s)"
    and "redis_provider_set R conf s key val = (Inr RNull, s)"
    and "redis_provider_del R s key = (Inr RNull, s)"
    and "redis_provider_keys R s = (Inr RNull, s)"
    and "redis_provider_reset R s = (Inr RNull, s)"
    and "redis_provider_clearByRegexp R s regExps = (Inr RUndefined, s)"
  using assms
  by (simp_all add: redis_provider_get_def redis_provider_set_def redis_provider_del_def
      redis_provider_keys_def redis_provider_reset_def redis_provider_clearByRegexp_def)

lemma redis_invalid_key:
  assumes "invalid_key key"
  shows "redis_provider_get R s key = (Inr RNull, s)"
    and "redis_provider_set R conf s key val = (Inr RNull, s)"
    and "redis_provider_del R s key = (Inr RNull, s)"
  using assms
  by (simp_all add: redis_provider_get_def redis_provider_set_def redis_provider_del_def)

text \<open>A provider is not ready before \<^verbatim>\<open>init\<close>, and not ready after an \<^verbatim>\<open>init\<close> that threw.\<close>

lemma mem_new_not_ready: "\<not> mem_ready InMemoryCacheProvider_new"
  by (simp add: mem_ready_def InMemoryCacheProvider_new_def)

lemma mem_init_failed_not_ready:
  "\<not> mem_ready s \<Longrightarrow> fst (mem_init L conf s) \<noteq> None \<Longrightarrow> \<not> mem_ready (snd (mem_init L conf s))"
  by (auto simp: mem_init_def Let_def split: if_splits sum.splits)

lemma redis_new_not_ready: "\<not> redis_ready RedisCacheProvider_new"
  by (simp add: redis_ready_def RedisCacheProvider_new_def)

lemma redis_init_failed_not_ready:
  "\<not> redis_initialized s \<Longrightarrow> fst (redis_init R conf s) \<noteq> None
    \<Longrightarrow> \<not> redis_ready (snd (redis_init R conf s))"
  by (auto simp: redis_init_def redis_ready_def Let_def split: if_splits sum.splits)

lemma glob_match_star: "glob_match ''*'' s"
  by (induction s) simp_all

text \<open>
  \<^verbatim>\<open>init\<close> of the memory provider, unlike \<^verbatim>\<open>validateConfig\<close>, stops at the first rule
  that fails: on the invalid configuration of the test script it throws the error of the
  \<^verbatim>\<open>max\<close> rule.
\<close>

lemma mem_init_invalid_config:
  "mem_init L invalid_plugin_config InMemoryCacheProvider_new
     = (Some (Error ''max must be greater than 0''), InMemoryCacheProvider_new)"
  by (simp add: mem_init_def invalid_plugin_config_def InMemoryCacheProvider_new_def
      or_default_def)

section \<open>The GraphQL middleware\<close>

lemma js_includes_iff: "js_includes s sub \<longleftrightarrow> (\<exists>p q. s = p @ sub @ q)"
proof (induction s)
  case Nil
  show ?case by auto
next
  case (Cons c cs)
  show ?case
  proof
    assume "js_includes (c # cs) sub"
    then consider "prefix sub (c # cs)" | "js_includes cs sub" by auto
    then show "\<exists>p q. c # cs = p @ sub @ q"
    proof cases
      case 1
      then obtain q where "c # cs = sub @ q" by (auto simp: prefix_def)
      then have "c # cs = [] @ sub @ q" by simp
      then show ?thesis by blast
    next
      case 2
      then obtain p q where "cs = p @ sub @ q" using Cons.IH by blast
      then have "c # cs = (c # p) @ sub @ q" by simp
      then show ?thesis by blast
    qed
  next
    assume "\<exists>p q. c # cs = p @ sub @ q"
    then obtain p q where e: "c # cs = p @ sub @ q" by blast
    show "js_includes (c # cs) sub"
    proof (cases p)
      case Nil
      with e have "prefix sub (c # cs)" by (simp add: prefix_def)
      then show ?thesis by simp
    next
      case (Cons a p')
      with e have "cs = p' @ sub @ q" by simp
      then have "js_includes cs sub" using Cons.IH by blast
      then show ?thesis by simp
    qed
  qed
qed

lemma call_next_trace: "w_trace (call_next E w) = w_trace w @ [Next]"
  by (simp add: call_next_def split: sum.splits)

lemma call_next_cache: "w_cache (call_next E w) = w_cache w"
  by (simp add: call_next_def split: sum.splits)

lemma middleware_introspection:
  "js_includes (ctx_raw_body (w_ctx w)) ''IntrospectionQuery'' \<Longrightarrow> middleware E w = call_next E w"
  by (simp add: middleware_def)


lemma middleware_hit:
  assumes "\<not> js_includes (ctx_raw_body (w_ctx w)) ''IntrospectionQuery''"
    and "\<not> (header_truthy (headers (ctx_request (w_ctx w)) ''authorization'')
           \<and> \<not> cacheAuthorizedRequests E)"
    and "w_cache w (generateGraphqlCacheKey (ctx_raw_body (w_ctx w))) = Some entry"
    and "\<forall>v. headers (ctx_request (w_ctx w)) ''cache-control'' = Some v \<longrightarrow> \<not> js_includes v ''no-cache''"
  shows "middleware E w =
     w\<lparr>w_trace := w_trace w @ [CacheGet (generateGraphqlCacheKey (ctx_raw_body (w_ctx w)))],
       w_ctx := replay E entry (w_ctx w)\<rparr>"
  using assms
  by (auto simp: middleware_def Let_def header_truthy_def split: option.splits)








lemma middleware_miss:
  assumes "\<not> js_includes (ctx_raw_body (w_ctx w)) ''IntrospectionQuery''"
    and "\<not> (header_truthy (headers (ctx_request (w_ctx w)) ''authorization'')
           \<and> \<not> cacheAuthorizedRequests E)"
    and "w_cache w (generateGraphqlCacheKey (ctx_raw_body (w_ctx w))) = None"
  shows "middleware E w =
     (let key = generateGraphqlCacheKey (ctx_raw_body (w_ctx w));
          w' = call_next E (w\<lparr>w_trace := w_trace w @ [CacheGet key]\<rparr>)
      in if w_thrown w' \<noteq> None then w'
         else store_response E (url (ctx_request (w_ctx w))) key w')"
  using assms by (auto simp: middleware_def Let_def)


lemma set_headers_other: "k \<notin> fst ` set hs \<Longrightarrow> set_headers hs m k = m k"
  by (induction hs m rule: set_headers.induct) auto

lemma set_headers_distinct:
  "distinct (map fst hs) \<Longrightarrow> (k, v) \<in> set hs \<Longrightarrow> set_headers hs m k = Some v"
proof (induction hs m rule: set_headers.induct)
  case (1 m)
  then show ?case by simp
next
  case (2 k' v' hs m)
  show ?case
  proof (cases "(k, v) = (k', v')")
    case True
    moreover have "k' \<notin> set (map fst hs)"
      using "2.prems"(1) by simp
    ultimately have "k \<notin> fst ` set hs"
      by simp
    then have "set_headers hs (m(k \<mapsto> v)) k = (m(k \<mapsto> v)) k"
      by (rule set_headers_other)
    with True show ?thesis by simp
  next
    case False
    then have "(k, v) \<in> set hs"
      using "2.prems"(2) by auto
    moreover have "distinct (map fst hs)"
      using "2.prems"(1) by simp
    ultimately have "set_headers hs (m(k' \<mapsto> v')) k = Some v"
      by (rule "2.IH" [rotated])
    then show ?thesis by simp
  qed
qed

text \<open>A stored body that is null is replayed with the status 204.\<close>

lemma replay_null_body:
  "ctx_status (replay E \<lparr>entry_body = Value JNull, entry_headers = hs\<rparr> c) = 204"
  by (simp add: replay_def ctx_set_def assign_body_def assign_status_200_def Let_def
      empty_status_def)

section \<open>Properties of the specification\<close>

text \<open>
  C1, as the code has it. The query is serialized with \<^verbatim>\<open>JSON.stringify\<close>, which follows
  the object's property order, so the key depends on the insertion order of the query
  keys that are not array indices: the requests \<open>req_page_limit\<close> and \<open>req_limit_page\<close>
  agree in method, url, headers and in the query as a mapping, and get different keys.
\<close>

theorem key_depends_on_insertion_order:
  "req_method req_page_limit = req_method req_limit_page
   \<and> url req_page_limit = url req_limit_page
   \<and> headers req_page_limit = headers req_limit_page
   \<and> map_of (query req_page_limit) = map_of (query req_limit_page)
   \<and> generateCacheKey req_page_limit \<noteq> generateCacheKey req_limit_page"
proof -
  have "map_of (query req_page_limit) = map_of (query req_limit_page)"
    by (rule ext) (simp add: req_page_limit_def req_limit_page_def)
  moreover have "generateCacheKey req_page_limit \<noteq> generateCacheKey req_limit_page"
    by (simp add: generateCacheKey_page_limit generateCacheKey_limit_page)
  ultimately show ?thesis
    by (simp add: req_page_limit_def req_limit_page_def)
qed

text \<open>
  C1, amended. Two requests with equal method and url, equal tracked headers, and query
  objects (distinct keys) that are equal as mappings and list their keys that are not
  array indices in the same relative insertion order get the same key; the insertion
  order of the array-index keys does not matter.
\<close>

theorem key_independent_of_index_insertion_order:
  assumes "req_method r1 = req_method r2" and "url r1 = url r2"
    and "distinct (map fst (query r1))" and "distinct (map fst (query r2))"
    and "map_of (query r1) = map_of (query r2)"
    and "filter (\<lambda>p. \<not> is_array_index (fst p)) (query r1)
       = filter (\<lambda>p. \<not> is_array_index (fst p)) (query r2)"
    and "headers r1 ''accept-language'' = headers r2 ''accept-language''"
    and "headers r1 ''accept'' = headers r2 ''accept''"
    and "headers r1 ''user-agent'' = headers r2 ''user-agent''"
  shows "generateCacheKey r1 = generateCacheKey r2"
proof -
  have "queryString r1 = queryString r2"
    using assms(3-6) by (rule queryString_cong)
  moreover have "headersString r1 = headersString r2"
    using assms(7-9) by (rule headersString_cong)
  ultimately show ?thesis
    using assms(1,2) by (simp add: generateCacheKey_def keyData_def)
qed

theorem key_independent_of_index_insertion_order_witness:
  "query req_index_first \<noteq> query req_index_last
   \<and> map_of (query req_index_first) = map_of (query req_index_last)
   \<and> generateCacheKey req_index_first = generateCacheKey req_index_last"
proof -
  have m: "map_of (query req_index_first) = map_of (query req_index_last)"
    by (rule ext) (simp add: req_index_first_def req_index_last_def)
  have f: "filter (\<lambda>p. \<not> is_array_index (fst p)) (query req_index_first)
      = filter (\<lambda>p. \<not> is_array_index (fst p)) (query req_index_last)"
    by (simp add: req_index_first_def req_index_last_def is_array_index_def parse_nat_def
        dec.simps digit_char_def)
  have "generateCacheKey req_index_first = generateCacheKey req_index_last"
    by (rule key_independent_of_index_insertion_order [OF _ _ _ _ m f])
      (simp_all add: req_index_first_def req_index_last_def)
  with m show ?thesis
    by (simp add: req_index_first_def req_index_last_def)
qed




text \<open>
  C3. Two requests with the same method, url and query and the same values (or absence) of
  the headers \<^verbatim>\<open>accept-language\<close>, \<^verbatim>\<open>accept\<close> and \<^verbatim>\<open>user-agent\<close> get the same key,
  whatever their other headers are, the \<^verbatim>\<open>authorization\<close> header included.
\<close>

theorem untracked_headers_do_not_influence_key:
  assumes "req_method r1 = req_method r2" and "url r1 = url r2" and "query r1 = query r2"
    and "headers r1 ''accept-language'' = headers r2 ''accept-language''"
    and "headers r1 ''accept'' = headers r2 ''accept''"
    and "headers r1 ''user-agent'' = headers r2 ''user-agent''"
  shows "generateCacheKey r1 = generateCacheKey r2"
  using assms
  by (simp add: generateCacheKey_def keyData_def queryString_def headersString_def
      relevantHeaders_def header_def)

theorem untracked_headers_do_not_influence_key_witness:
  "headers mockContext ''authorization'' \<noteq> headers mockContext_other_user ''authorization''
   \<and> headers mockContext ''cookie'' \<noteq> headers mockContext_other_user ''cookie''
   \<and> generateCacheKey mockContext = generateCacheKey mockContext_other_user"
proof -
  have "generateCacheKey mockContext = generateCacheKey mockContext_other_user"
    by (rule untracked_headers_do_not_influence_key)
      (simp_all add: mockContext_def mockContext_other_user_def)
  then show ?thesis
    by (simp add: mockContext_def mockContext_other_user_def)
qed

text \<open>
  C4. On either provider, every data operation on a provider that is not ready returns
  null (\<^verbatim>\<open>clearByRegexp\<close>, which returns nothing, returns undefined), throws nothing and
  leaves the provider as it was; a provider is not ready before \<^verbatim>\<open>init\<close> and after an
  \<^verbatim>\<open>init\<close> that threw. On any provider, \<^verbatim>\<open>get\<close>, \<^verbatim>\<open>set\<close> and \<^verbatim>\<open>del\<close> with a key that
  is null, the empty string or not a string return null, throw nothing and leave the
  provider, and with it the stored entries, as it was.
\<close>

theorem provider_operations_guarded:
  "(\<not> mem_ready ms \<longrightarrow>
       mem_get L ms key = (Inr RNull, ms) \<and> mem_set L ms key val = (Inr RNull, ms)
     \<and> mem_del L ms key = (Inr RNull, ms) \<and> mem_keys L ms = (Inr RNull, ms)
     \<and> mem_reset L ms = (Inr RNull, ms)
     \<and> mem_clearByRegexp L ms regExps = (Inr RUndefined, ms))
   \<and> (\<not> redis_ready rs \<longrightarrow>
       redis_provider_get R rs key = (Inr RNull, rs)
     \<and> redis_provider_set R conf rs key val = (Inr RNull, rs)
     \<and> redis_provider_del R rs key = (Inr RNull, rs)
     \<and> redis_provider_keys R rs = (Inr RNull, rs)
     \<and> redis_provider_reset R rs = (Inr RNull, rs)
     \<and> redis_provider_clearByRegexp R rs regExps = (Inr RUndefined, rs))
   \<and> (key = JNull \<or> key = JStr [] \<or> js_typeof key \<noteq> ''string'' \<longrightarrow>
       mem_get L ms key = (Inr RNull, ms) \<and> mem_set L ms key val = (Inr RNull, ms)
     \<and> mem_del L ms key = (Inr RNull, ms)
     \<and> redis_provider_get R rs key = (Inr RNull, rs)
     \<and> redis_provider_set R conf rs key val = (Inr RNull, rs)
     \<and> redis_provider_del R rs key = (Inr RNull, rs))
   \<and> \<not> mem_ready (InMemoryCacheProvider_new :: 'c InMemoryCacheProvider)
   \<and> \<not> redis_ready (RedisCacheProvider_new :: 'd RedisCacheProvider)
   \<and> (\<not> mem_ready ms \<and> fst (mem_init L conf ms) \<noteq> None
        \<longrightarrow> \<not> mem_ready (snd (mem_init L conf ms)))
   \<and> (\<not> redis_initialized rs \<and> fst (redis_init R conf rs) \<noteq> None
        \<longrightarrow> \<not> redis_ready (snd (redis_init R conf rs)))"
proof -
  have a: "\<not> mem_ready ms \<longrightarrow>
       mem_get L ms key = (Inr RNull, ms) \<and> mem_set L ms key val = (Inr RNull, ms)
     \<and> mem_del L ms key = (Inr RNull, ms) \<and> mem_keys L ms = (Inr RNull, ms)
     \<and> mem_reset L ms = (Inr RNull, ms)
     \<and> mem_clearByRegexp L ms regExps = (Inr RUndefined, ms)"
    by (simp add: mem_not_ready)
  have b: "\<not> redis_ready rs \<longrightarrow>
       redis_provider_get R rs key = (Inr RNull, rs)
     \<and> redis_provider_set R conf rs key val = (Inr RNull, rs)
     \<and> redis_provider_del R rs key = (Inr RNull, rs)
     \<and> redis_provider_keys R rs = (Inr RNull, rs)
     \<and> redis_provider_reset R rs = (Inr RNull, rs)
     \<and> redis_provider_clearByRegexp R rs regExps = (Inr RUndefined, rs)"
    by (simp add: redis_not_ready)
  have c: "key = JNull \<or> key = JStr [] \<or> js_typeof key \<noteq> ''string'' \<longrightarrow>
       mem_get L ms key = (Inr RNull, ms) \<and> mem_set L ms key val = (Inr RNull, ms)
     \<and> mem_del L ms key = (Inr RNull, ms)
     \<and> redis_provider_get R rs key = (Inr RNull, rs)
     \<and> redis_provider_set R conf rs key val = (Inr RNull, rs)
     \<and> redis_provider_del R rs key = (Inr RNull, rs)"
    unfolding invalid_key_iff [symmetric]
    by (simp add: mem_invalid_key redis_invalid_key)
  have d: "\<not> mem_ready ms \<and> fst (mem_init L conf ms) \<noteq> None
        \<longrightarrow> \<not> mem_ready (snd (mem_init L conf ms))"
    using mem_init_failed_not_ready [of ms L conf] by blast
  have e: "\<not> redis_initialized rs \<and> fst (redis_init R conf rs) \<noteq> None
        \<longrightarrow> \<not> redis_ready (snd (redis_init R conf rs))"
    using redis_init_failed_not_ready [of rs R conf] by blast
  from a b c d e show ?thesis
    using mem_new_not_ready redis_new_not_ready by blast
qed

text \<open>
  The theorem at a provider that was never initialized and at one that is ready: the
  memory provider after a successful \<^verbatim>\<open>init\<close> with the default configuration, asked to
  store under the key \<^verbatim>\<open>5\<close>.
\<close>

theorem provider_operations_guarded_witness:
  "\<not> mem_ready (InMemoryCacheProvider_new :: (int \<times> (string \<times> jsval) list) InMemoryCacheProvider)
   \<and> mem_get simple_lru InMemoryCacheProvider_new (JStr ''cache:k'')
       = (Inr RNull, InMemoryCacheProvider_new)
   \<and> redis_provider_keys (redis_server rejecting_parser) RedisCacheProvider_new
       = (Inr RNull, RedisCacheProvider_new)
   \<and> mem_ready (snd (mem_init simple_lru default_config InMemoryCacheProvider_new))
   \<and> mem_set simple_lru (snd (mem_init simple_lru default_config InMemoryCacheProvider_new))
         (JNum 5) (JStr ''v'')
       = (Inr RNull, snd (mem_init simple_lru default_config InMemoryCacheProvider_new))"
proof -
  let ?new = "InMemoryCacheProvider_new :: (int \<times> (string \<times> jsval) list) InMemoryCacheProvider"
  let ?up = "snd (mem_init simple_lru default_config ?new)"
  let ?R = "redis_server rejecting_parser"
  have n: "\<not> mem_ready ?new"
    by (simp add: mem_ready_def InMemoryCacheProvider_new_def)
  have r: "\<not> redis_ready (RedisCacheProvider_new :: (string \<times> string) list RedisCacheProvider)"
    by (simp add: redis_ready_def RedisCacheProvider_new_def)
  have u: "mem_ready ?up"
    by (simp add: mem_init_def mem_ready_def InMemoryCacheProvider_new_def default_config_def
        simple_lru_def or_default_def)
  have k: "js_typeof (JNum 5) \<noteq> ''string''"
    by simp
  note fresh = provider_operations_guarded
    [where ms = ?new and L = simple_lru and key = "JStr ''cache:k''"
       and rs = RedisCacheProvider_new and R = ?R]
  note ready = provider_operations_guarded
    [where ms = ?up and L = simple_lru and key = "JNum 5" and val = "JStr ''v''"
       and rs = RedisCacheProvider_new and R = ?R]
  have "mem_get simple_lru ?new (JStr ''cache:k'') = (Inr RNull, ?new)"
    using fresh n by blast
  moreover have "redis_provider_keys ?R RedisCacheProvider_new = (Inr RNull, RedisCacheProvider_new)"
    using fresh r by blast
  moreover have "mem_set simple_lru ?up (JNum 5) (JStr ''v'') = (Inr RNull, ?up)"
    using ready k by blast
  ultimately show ?thesis
    using n u by blast
qed

text \<open>
  C5, as the code has it. An absent tracked header is read as undefined, and
  \<^verbatim>\<open>JSON.stringify\<close> leaves a property with an undefined value out. The request
  \<open>req_no_accept\<close> has no \<^verbatim>\<open>accept\<close> header; \<open>req_empty_accept\<close> is the same request with
  the header present and empty. Their keys differ.
\<close>

theorem absent_header_differs_from_empty_header:
  "headers req_no_accept ''accept'' = None
   \<and> req_empty_accept = req_no_accept\<lparr>headers := (headers req_no_accept)(''accept'' \<mapsto> [])\<rparr>
   \<and> generateCacheKey req_no_accept \<noteq> generateCacheKey req_empty_accept"
proof -
  have "generateCacheKey req_no_accept \<noteq> generateCacheKey req_empty_accept"
    by (simp add: generateCacheKey_no_accept generateCacheKey_empty_accept)
  then show ?thesis
    by (simp add: req_no_accept_def req_empty_accept_def)
qed

text \<open>
  C5, amended. When one of the three tracked headers is absent, the header mapping is
  serialized as if it had no property of that name: the header is left out, not written
  as an empty string. The key material of the request is then strictly shorter than, and
  so different from, the key material of the same request carrying that header with the
  empty string as its value.
\<close>

theorem absent_tracked_header_is_left_out:
  assumes "h \<in> set [''accept-language'', ''accept'', ''user-agent'']"
    and "headers r h = None"
  shows "headersString r = stringify_object (filter (\<lambda>p. fst p \<noteq> h) (relevantHeaders r))
       \<and> length (keyData r) < length (keyData (r\<lparr>headers := (headers r)(h \<mapsto> [])\<rparr>))
       \<and> keyData r \<noteq> keyData (r\<lparr>headers := (headers r)(h \<mapsto> [])\<rparr>)"
proof -
  let ?r' = "r\<lparr>headers := (headers r)(h \<mapsto> [])\<rparr>"
  have left_out:
    "headersString r = stringify_object (filter (\<lambda>p. fst p \<noteq> h) (relevantHeaders r))"
    using assms
    by (auto simp: headersString_def relevantHeaders_def stringify_object_def json_object_def
        own_properties_no_index tracked_not_index json_member_def header_def)
  have "length (headersString r) < length (headersString ?r')"
    using assms by (rule headersString_longer_with_empty)
  then have len: "length (keyData r) < length (keyData ?r')"
    by (simp add: keyData_def queryString_def)
  then have "keyData r \<noteq> keyData ?r'"
    by auto
  with left_out len show ?thesis
    by simp
qed

theorem absent_tracked_header_is_left_out_witness:
  "headers req_no_accept ''accept'' = None
   \<and> length (keyData req_no_accept)
       < length (keyData (req_no_accept\<lparr>headers := (headers req_no_accept)(''accept'' \<mapsto> [])\<rparr>))
   \<and> keyData req_no_accept
       \<noteq> keyData (req_no_accept\<lparr>headers := (headers req_no_accept)(''accept'' \<mapsto> [])\<rparr>)"
proof -
  have h: "''accept'' \<in> set [''accept-language'', ''accept'', ''user-agent'']"
    by simp
  have n: "headers req_no_accept ''accept'' = None"
    by (simp add: req_no_accept_def)
  show ?thesis
    using absent_tracked_header_is_left_out [OF h n] n by simp
qed

text \<open>
  C6. The password redaction is idempotent: redacting an already redacted payload changes
  nothing, for every payload; hence the GraphQL key of a once-redacted payload is the key
  of the original payload.
\<close>

theorem redaction_idempotent:
  "redact (redact payload) = redact payload
   \<and> generateGraphqlCacheKey (redact payload) = generateGraphqlCacheKey payload"
  by (simp add: redact_redact generateGraphqlCacheKey_def)

theorem redaction_idempotent_witness:
  \<open>redact ''{"password":  "secret123"}'' = ''{"password":"***"}''
   \<and> redact (redact ''{"password":  "secret123"}'') = redact ''{"password":  "secret123"}''
   \<and> generateGraphqlCacheKey (redact ''{"password":  "secret123"}'')
       = generateGraphqlCacheKey ''{"password":  "secret123"}''\<close>
  using redaction_idempotent [of \<open>''{"password":  "secret123"}''\<close>]
  by (simp add: match_password_def password_prefix_def replacement_def is_space_def)

text \<open>
  C7, as the code has it. An entry holds a body and headers, no status, and the hit path
  assigns the status 200. A response that downstream produced with status 201 is stored
  (the status is in the cacheable range); the next identical request is served from the
  cache with status 200.
\<close>

theorem replayed_status_is_not_the_cached_status:
  "ctx_status (w_ctx (middleware (example_env (respond 201 ''[]''))
                        (graphql_request articles_query Map.empty))) = 201
   \<and> w_cache (middleware (example_env (respond 201 ''[]''))
                (graphql_request articles_query Map.empty))
        (generateGraphqlCacheKey articles_query) = Some (articles_entry ''[]'')
   \<and> w_trace (middleware (example_env (respond 201 ''[]''))
        ((graphql_request articles_query Map.empty)
           \<lparr>w_cache := w_cache (middleware (example_env (respond 201 ''[]''))
                                  (graphql_request articles_query Map.empty))\<rparr>))
       = [CacheGet (generateGraphqlCacheKey articles_query)]
   \<and> ctx_status (w_ctx (middleware (example_env (respond 201 ''[]''))
        ((graphql_request articles_query Map.empty)
           \<lparr>w_cache := w_cache (middleware (example_env (respond 201 ''[]''))
                                  (graphql_request articles_query Map.empty))\<rparr>))) = 200"
proof -
  have i: "\<not> js_includes articles_query ''IntrospectionQuery''"
    by (simp add: articles_query_def)
  show ?thesis
    using i
    by (simp add: middleware_def Let_def graphql_request_def example_env_def respond_def
        call_next_def store_response_def cache_set_def header_truthy_def headerPolicy_def
        articles_entry_def replay_def ctx_set_def assign_status_200_def assign_body_def
        koa_body_headers_def koa_length_def koa_type_if_unset_def)
qed

text \<open>
  C7, amended. On a cache hit (the request is not taken for an introspection query, is not
  bypassed for its authorization, an entry is found and the request has no Cache-Control
  header containing \<^verbatim>\<open>no-cache\<close>) the middleware assigns the status 200 and then the
  stored body. The replayed status is therefore 200, whatever the status of the response
  that was cached, unless the stored body is null or undefined, for which the body setter
  of the framework makes it 204. The replayed body is the stored body. When header
  caching is enabled, every stored header is set on the response. The middleware ends
  without calling \<^verbatim>\<open>next()\<close>: its only event is the lookup.
\<close>

theorem hit_replays_entry_with_status_200:
  assumes "\<not> js_includes (ctx_raw_body (w_ctx w)) ''IntrospectionQuery''"
    and "\<not> (header_truthy (headers (ctx_request (w_ctx w)) ''authorization'')
           \<and> \<not> cacheAuthorizedRequests E)"
    and "w_cache w (generateGraphqlCacheKey (ctx_raw_body (w_ctx w))) = Some entry"
    and "\<forall>v. headers (ctx_request (w_ctx w)) ''cache-control'' = Some v \<longrightarrow> \<not> js_includes v ''no-cache''"
  shows "ctx_status (w_ctx (middleware E w)) = (if nullish (entry_body entry) then 204 else 200)
       \<and> ctx_body (w_ctx (middleware E w)) = entry_body entry
       \<and> (cacheHeaders E \<and> distinct (map fst (entry_headers entry)) \<longrightarrow>
            (\<forall>(k, v) \<in> set (entry_headers entry).
               ctx_response_headers (w_ctx (middleware E w)) k = Some v))
       \<and> w_trace (middleware E w)
           = w_trace w @ [CacheGet (generateGraphqlCacheKey (ctx_raw_body (w_ctx w)))]
       \<and> w_cache (middleware E w) = w_cache w
       \<and> w_thrown (middleware E w) = w_thrown w"
proof -
  let ?c = "replay E entry (w_ctx w)"
  have s: "ctx_status ?c = (if nullish (entry_body entry) then 204 else 200)"
    by (simp add: replay_def ctx_set_def assign_body_def assign_status_200_def Let_def
        empty_status_def)
  have b: "ctx_body ?c = entry_body entry"
    by (simp add: replay_def ctx_set_def assign_body_def assign_status_200_def Let_def)
  have h: "ctx_response_headers ?c k = Some v"
    if "cacheHeaders E" and "distinct (map fst (entry_headers entry))"
      and "(k, v) \<in> set (entry_headers entry)" for k v
    using that by (simp add: replay_def ctx_set_def Let_def set_headers_distinct)
  show ?thesis
    unfolding middleware_hit [OF assms]
    using s b h by auto
qed

theorem hit_replays_entry_with_status_200_witness:
  "ctx_status (w_ctx (middleware (example_env (respond 201 ''[]''))
       ((graphql_request articles_query Map.empty)
          \<lparr>w_cache := [generateGraphqlCacheKey articles_query \<mapsto> articles_entry ''[1]'']\<rparr>))) = 200
   \<and> ctx_body (w_ctx (middleware (example_env (respond 201 ''[]''))
       ((graphql_request articles_query Map.empty)
          \<lparr>w_cache := [generateGraphqlCacheKey articles_query \<mapsto> articles_entry ''[1]'']\<rparr>)))
     = Value (JStr ''[1]'')
   \<and> ctx_response_headers (w_ctx (middleware (example_env (respond 201 ''[]''))
       ((graphql_request articles_query Map.empty)
          \<lparr>w_cache := [generateGraphqlCacheKey articles_query \<mapsto> articles_entry ''[1]'']\<rparr>)))
       ''content-type'' = Some ''application/json''
   \<and> w_trace (middleware (example_env (respond 201 ''[]''))
       ((graphql_request articles_query Map.empty)
          \<lparr>w_cache := [generateGraphqlCacheKey articles_query \<mapsto> articles_entry ''[1]'']\<rparr>))
     = [CacheGet (generateGraphqlCacheKey articles_query)]"
proof -
  let ?E = "example_env (respond 201 ''[]'')"
  let ?w = "(graphql_request articles_query Map.empty)
          \<lparr>w_cache := [generateGraphqlCacheKey articles_query \<mapsto> articles_entry ''[1]'']\<rparr>"
  have i: "\<not> js_includes articles_query ''IntrospectionQuery''"
    by (simp add: articles_query_def)
  have h1: "\<not> js_includes (ctx_raw_body (w_ctx ?w)) ''IntrospectionQuery''"
    using i by (simp add: graphql_request_def)
  have h2: "\<not> (header_truthy (headers (ctx_request (w_ctx ?w)) ''authorization'')
           \<and> \<not> cacheAuthorizedRequests ?E)"
    by (simp add: graphql_request_def header_truthy_def)
  have h3: "w_cache ?w (generateGraphqlCacheKey (ctx_raw_body (w_ctx ?w)))
      = Some (articles_entry ''[1]'')"
    by (simp add: graphql_request_def)
  have h4: "\<forall>v. headers (ctx_request (w_ctx ?w)) ''cache-control'' = Some v
      \<longrightarrow> \<not> js_includes v ''no-cache''"
    by (simp add: graphql_request_def)
  have e: "cacheHeaders ?E \<and> distinct (map fst (entry_headers (articles_entry ''[1]'')))"
    by (simp add: example_env_def articles_entry_def)
  note t = hit_replays_entry_with_status_200 [OF h1 h2 h3 h4]
  from t have "ctx_status (w_ctx (middleware ?E ?w))
      = (if nullish (entry_body (articles_entry ''[1]'')) then 204 else 200)"
    by (rule conjunct1)
  then have 1: "ctx_status (w_ctx (middleware ?E ?w)) = 200"
    by (simp add: articles_entry_def)
  from t have "ctx_body (w_ctx (middleware ?E ?w)) = entry_body (articles_entry ''[1]'')"
    by blast
  then have 2: "ctx_body (w_ctx (middleware ?E ?w)) = Value (JStr ''[1]'')"
    by (simp add: articles_entry_def)
  from t e have "\<forall>(k, v) \<in> set (entry_headers (articles_entry ''[1]'')).
      ctx_response_headers (w_ctx (middleware ?E ?w)) k = Some v"
    by blast
  then have 3: "ctx_response_headers (w_ctx (middleware ?E ?w)) ''content-type''
      = Some ''application/json''"
    by (simp add: articles_entry_def)
  from t have "w_trace (middleware ?E ?w)
      = w_trace ?w @ [CacheGet (generateGraphqlCacheKey (ctx_raw_body (w_ctx ?w)))]"
    by blast
  then have 4: "w_trace (middleware ?E ?w) = [CacheGet (generateGraphqlCacheKey articles_query)]"
    by (simp add: graphql_request_def)
  from 1 2 3 4 show ?thesis
    by (intro conjI)
qed

text \<open>
  C8, as the code has it. The validation of the plugin itself, in \<^verbatim>\<open>init\<close> of the memory
  provider, stops at the first rule that fails. On the values \<^verbatim>\<open>max:-1, ttl:-1000, size:0\<close>
  it throws the one error of the \<^verbatim>\<open>max\<close> rule and reports nothing about the other
  rules; the provider stays uninitialized.
\<close>

theorem init_reports_one_error:
  "mem_init simple_lru invalid_plugin_config InMemoryCacheProvider_new
     = (Some (Error ''max must be greater than 0''), InMemoryCacheProvider_new)
   \<and> \<not> mem_ready (snd (mem_init simple_lru invalid_plugin_config InMemoryCacheProvider_new))"
  by (simp add: mem_init_invalid_config mem_new_not_ready)

text \<open>
  C8, amended. \<^verbatim>\<open>validateConfig\<close> of the test script reports, for every configuration
  (its numbers being integers), exactly one error per violated rule, in the order max, ttl, size, provider: the error of
  a rule is in the list if and only if the rule is violated (max and size must be positive
  numbers, ttl a non-negative number, provider one of \<^verbatim>\<open>memory\<close> and \<^verbatim>\<open>redis\<close>). On
  \<^verbatim>\<open>{max:-1, ttl:-1000, size:0, provider:"invalid"}\<close> these are four errors. \<^verbatim>\<open>init\<close> of the
  memory provider, which reads a missing, non-numeric or zero value as its default,
  throws only the error of the first violated rule in the order max, ttl, size.
\<close>

theorem validation_reports_violated_rules:
  \<open>validateConfig c =
       (if positive_number (cfg_max c) then [] else [''max must be a positive number''])
     @ (if non_negative_number (cfg_ttl c) then [] else [''ttl must be a non-negative number''])
     @ (if positive_number (cfg_size c) then [] else [''size must be a positive number''])
     @ (if memory_or_redis (cfg_provider c) then [] else [''provider must be "memory" or "redis"''])
   \<and> validateConfig invalidConfig =
       [''max must be a positive number'', ''ttl must be a non-negative number'',
        ''size must be a positive number'', ''provider must be "memory" or "redis"'']
   \<and> (\<not> mem_initialized s \<longrightarrow>
        (or_default (conf_max conf) 1000 \<le> 0 \<longrightarrow>
           mem_init L conf s = (Some (Error ''max must be greater than 0''), s))
      \<and> (0 < or_default (conf_max conf) 1000
           \<and> or_default (conf_ttl conf) (1000 * 60 * 60) < 0 \<longrightarrow>
           mem_init L conf s = (Some (Error ''ttl must be non-negative''), s))
      \<and> (0 < or_default (conf_max conf) 1000
           \<and> 0 \<le> or_default (conf_ttl conf) (1000 * 60 * 60)
           \<and> or_default (conf_size conf) (1024 * 1024 * 10) \<le> 0 \<longrightarrow>
           mem_init L conf s = (Some (Error ''size must be greater than 0''), s)))\<close>
proof -
  have m: "js_typeof v \<noteq> ''number'' \<or> num_le0 v \<longleftrightarrow> \<not> positive_number v" for v
    by (cases v) auto
  have t: "js_typeof v \<noteq> ''number'' \<or> num_lt0 v \<longleftrightarrow> \<not> non_negative_number v" for v
    by (cases v) auto
  have p: "js_typeof v \<noteq> ''string'' \<or> \<not> provider_known v \<longleftrightarrow> \<not> memory_or_redis v" for v
    by (cases v) auto
  have general: \<open>validateConfig c =
       (if positive_number (cfg_max c) then [] else [''max must be a positive number''])
     @ (if non_negative_number (cfg_ttl c) then [] else [''ttl must be a non-negative number''])
     @ (if positive_number (cfg_size c) then [] else [''size must be a positive number''])
     @ (if memory_or_redis (cfg_provider c) then [] else [''provider must be "memory" or "redis"''])\<close>
    for c
    unfolding validateConfig_def Let_def m t p by simp
  have scenario: \<open>validateConfig invalidConfig =
       [''max must be a positive number'', ''ttl must be a non-negative number'',
        ''size must be a positive number'', ''provider must be "memory" or "redis"'']\<close>
    by (simp add: general invalidConfig_def)
  have init: "(or_default (conf_max conf) 1000 \<le> 0 \<longrightarrow>
           mem_init L conf s = (Some (Error ''max must be greater than 0''), s))
      \<and> (0 < or_default (conf_max conf) 1000
           \<and> or_default (conf_ttl conf) (1000 * 60 * 60) < 0 \<longrightarrow>
           mem_init L conf s = (Some (Error ''ttl must be non-negative''), s))
      \<and> (0 < or_default (conf_max conf) 1000
           \<and> 0 \<le> or_default (conf_ttl conf) (1000 * 60 * 60)
           \<and> or_default (conf_size conf) (1024 * 1024 * 10) \<le> 0 \<longrightarrow>
           mem_init L conf s = (Some (Error ''size must be greater than 0''), s))"
    if "\<not> mem_initialized s"
    using that by (simp add: mem_init_def Let_def)
  from general scenario init show ?thesis
    by blast
qed

theorem validation_reports_violated_rules_witness:
  \<open>length (validateConfig invalidConfig) = 4
   \<and> validateConfig
        \<lparr>cfg_max = JNum 1000, cfg_ttl = JNum (- 1000), cfg_size = JNum 10485760,
         cfg_provider = JStr ''memory''\<rparr>
       = [''ttl must be a non-negative number'']
   \<and> mem_init simple_lru
        \<lparr>conf_max = Some 1000, conf_ttl = Some (- 1000), conf_size = Some 0,
         conf_allowStale = False, conf_cacheGetTimeoutInMs = None\<rparr> InMemoryCacheProvider_new
       = (Some (Error ''ttl must be non-negative''), InMemoryCacheProvider_new)\<close>
proof -
  let ?c = "\<lparr>cfg_max = JNum 1000, cfg_ttl = JNum (- 1000), cfg_size = JNum 10485760,
         cfg_provider = JStr ''memory''\<rparr>"
  let ?conf = "\<lparr>conf_max = Some 1000, conf_ttl = Some (- 1000), conf_size = Some 0,
         conf_allowStale = False, conf_cacheGetTimeoutInMs = None\<rparr>"
  let ?new = "InMemoryCacheProvider_new :: (int \<times> (string \<times> jsval) list) InMemoryCacheProvider"
  note t = validation_reports_violated_rules [of ?c ?new ?conf simple_lru]
  have n: "\<not> mem_initialized ?new"
    by (simp add: InMemoryCacheProvider_new_def)
  have o: "0 < or_default (conf_max ?conf) 1000
      \<and> or_default (conf_ttl ?conf) (1000 * 60 * 60) < 0"
    by (simp add: or_default_def)
  from t have \<open>validateConfig invalidConfig =
       [''max must be a positive number'', ''ttl must be a non-negative number'',
        ''size must be a positive number'', ''provider must be "memory" or "redis"'']\<close>
    by blast
  then have 1: "length (validateConfig invalidConfig) = 4"
    by simp
  from t have \<open>validateConfig ?c =
       (if positive_number (cfg_max ?c) then [] else [''max must be a positive number''])
     @ (if non_negative_number (cfg_ttl ?c) then [] else [''ttl must be a non-negative number''])
     @ (if positive_number (cfg_size ?c) then [] else [''size must be a positive number''])
     @ (if memory_or_redis (cfg_provider ?c) then [] else [''provider must be "memory" or "redis"''])\<close>
    by (rule conjunct1)
  then have 2: "validateConfig ?c = [''ttl must be a non-negative number'']"
    by simp
  from t n o have 3: "mem_init simple_lru ?conf ?new
      = (Some (Error ''ttl must be non-negative''), ?new)"
    by blast
  from 1 2 3 show ?thesis
    by (intro conjI)
qed

text \<open>
  C9, as the code has it. \<^verbatim>\<open>keys\<close> sends \<^verbatim>\<open>KEYS *\<close>, which matches every key of the
  database. On a database that also holds the key \<^verbatim>\<open>session:42\<close> of another application,
  that key is enumerated although it carries neither the \<^verbatim>\<open>cache:\<close> nor the
  \<^verbatim>\<open>graphql:\<close> prefix.
\<close>

theorem redis_keys_enumerates_foreign_key:
  "fst (redis_provider_keys (redis_server rejecting_parser) shared_provider)
     = Inr (RKeys [''session:42'', ''cache:NrddAgUK-jIlrgnEFA-HficmUw8ilW0hWqYB1PxcKEk''])
   \<and> \<not> prefix ''cache:'' ''session:42'' \<and> \<not> prefix ''graphql:'' ''session:42''"
  by (simp add: redis_provider_keys_def redis_ready_def shared_provider_def shared_db_def
      redis_server_def)

text \<open>
  C9, amended. On a ready provider \<^verbatim>\<open>keys\<close> returns what the command \<^verbatim>\<open>KEYS *\<close>
  returns, without any filter; on the reference model of a Redis database these are all
  keys of the database, whatever their prefix.
\<close>

theorem redis_keys_enumerates_whole_database:
  assumes "redis_initialized s" and "redis_conn s = Some d"
  shows "redis_provider_keys R s =
           (case redis_keys R d ''*'' of
              Inr keys \<Rightarrow> (Inr (RKeys keys), s)
            | Inl error \<Rightarrow> (Inr RNull, s))
       \<and> redis_provider_keys (redis_server parse) s = (Inr (RKeys (map fst d)), s)"
  using assms
  by (simp add: redis_provider_keys_def redis_ready_def redis_server_def glob_match_star)

theorem redis_keys_enumerates_whole_database_witness:
  "redis_provider_keys (redis_server rejecting_parser) shared_provider
     = (Inr (RKeys (map fst shared_db)), shared_provider)
   \<and> ''session:42'' \<in> set (map fst shared_db)"
proof -
  have i: "redis_initialized shared_provider" and c: "redis_conn shared_provider = Some shared_db"
    by (simp_all add: shared_provider_def)
  have "redis_provider_keys (redis_server rejecting_parser) shared_provider
      = (Inr (RKeys (map fst shared_db)), shared_provider)"
    by (rule redis_keys_enumerates_whole_database [OF i c, THEN conjunct2])
  then show ?thesis
    by (simp add: shared_db_def)
qed

text \<open>
  C10. Whenever the text \<^verbatim>\<open>IntrospectionQuery\<close> occurs anywhere in the request body, the
  middleware calls \<^verbatim>\<open>next()\<close> and does nothing else: the call is its only event, so there
  is neither a cache lookup nor a cache write, and the cache store is unchanged.
\<close>

theorem introspection_substring_bypasses_cache:
  assumes "ctx_raw_body (w_ctx w) = before @ ''IntrospectionQuery'' @ after"
  shows "w_trace (middleware E w) = w_trace w @ [Next]
       \<and> w_cache (middleware E w) = w_cache w
       \<and> middleware E w = call_next E w"
proof -
  have "js_includes (ctx_raw_body (w_ctx w)) ''IntrospectionQuery''"
    using assms js_includes_iff by blast
  then have "middleware E w = call_next E w"
    by (rule middleware_introspection)
  then show ?thesis
    by (simp add: call_next_trace call_next_cache)
qed

text \<open>
  The theorem at an ordinary search query whose variable value is the text
  \<^verbatim>\<open>IntrospectionQuery\<close>.
\<close>

theorem introspection_substring_bypasses_cache_witness:
  \<open>search_query =
     ''{"query":"query Q($t: String) { search(text: $t) { id } }","variables":{"t":"''
     @ ''IntrospectionQuery'' @ ''"}}''
   \<and> w_trace (middleware (example_env (respond 200 ''[]'')) (graphql_request search_query Map.empty))
     = [Next]
   \<and> w_cache (middleware (example_env (respond 200 ''[]'')) (graphql_request search_query Map.empty))
     = Map.empty\<close>
proof -
  have b: \<open>ctx_raw_body (w_ctx (graphql_request search_query Map.empty)) =
     ''{"query":"query Q($t: String) { search(text: $t) { id } }","variables":{"t":"''
     @ ''IntrospectionQuery'' @ ''"}}''\<close>
    by (simp add: graphql_request_def search_query_def)
  let ?E = "example_env (respond 200 ''[]'')"
  let ?w = "graphql_request search_query Map.empty"
  note t = introspection_substring_bypasses_cache [OF b, of ?E]
  from t have "w_trace (middleware ?E ?w) = w_trace ?w @ [Next]"
    by (rule conjunct1)
  moreover from t have "w_cache (middleware ?E ?w) = w_cache ?w"
    by blast
  moreover have "w_trace ?w = []" and "w_cache ?w = Map.empty"
    by (simp_all add: graphql_request_def)
  ultimately have "w_trace (middleware ?E ?w) = [Next]"
    and "w_cache (middleware ?E ?w) = Map.empty"
    by simp_all
  moreover have \<open>search_query =
     ''{"query":"query Q($t: String) { search(text: $t) { id } }","variables":{"t":"''
     @ ''IntrospectionQuery'' @ ''"}}''\<close>
    by (simp add: search_query_def)
  ultimately show ?thesis
    by blast
qed

end
